theory Spec2Isabelle
  imports Main "HOL-Library.AList"
begin

section \<open>Python values\<close>

text \<open>
  The agent passes Python dictionaries around (replies, entries, post results, store
  documents). A dictionary is an association list from keys to values; a value is one of
  the Python values the code stores in them. A time stamp (\<open>datetime\<close>) is a number of
  microseconds on the clock's axis. A \<open>str\<close> is a list of 8-bit characters.
\<close>

datatype pyval =
    PNone
  | PStr string
  | PBool bool
  | PInt int
  | PTime int
  | PDict "(string \<times> pyval) list"

type_synonym pydict = "(string \<times> pyval) list"

datatype exn =
    KeyError string
  | ValueError string
  | IndexError
  | AttributeError string
  | TypeError string
  | OverflowError string
  | UnicodeEncodeError
  | OutputParserException string
  | PyMongoError string

text \<open>\<open>d.get(k)\<close> is \<open>map_of d k\<close>; \<open>d.get(k, default)\<close>: \<close>

definition get_default :: "pydict \<Rightarrow> string \<Rightarrow> pyval \<Rightarrow> pyval" where
  "get_default d k dflt = (case map_of d k of Some v \<Rightarrow> v | None \<Rightarrow> dflt)"

text \<open>\<open>d[k]\<close> raises \<open>KeyError\<close> on a missing key.\<close>

definition subscript :: "pydict \<Rightarrow> string \<Rightarrow> exn + pyval" where
  "subscript d k = (case map_of d k of Some v \<Rightarrow> Inr v | None \<Rightarrow> Inl (KeyError k))"

text \<open>\<open>k in d\<close>\<close>

definition has_key :: "string \<Rightarrow> pydict \<Rightarrow> bool" where
  "has_key k d = (map_of d k \<noteq> None)"

text \<open>Truth value of a Python value, as \<open>if v:\<close> and \<open>not v\<close> test it.\<close>

fun truthy :: "pyval \<Rightarrow> bool" where
  "truthy PNone = False"
| "truthy (PStr s) = (s \<noteq> [])"
| "truthy (PBool b) = b"
| "truthy (PInt i) = (i \<noteq> 0)"
| "truthy (PTime t) = True"
| "truthy (PDict d) = (d \<noteq> [])"

definition truthy_opt :: "pyval option \<Rightarrow> bool" where
  "truthy_opt v = (case v of None \<Rightarrow> False | Some x \<Rightarrow> truthy x)"

section \<open>Strings\<close>

text \<open>\<open>str.isspace\<close> on the code points below 256.\<close>

definition py_isspace :: "char \<Rightarrow> bool" where
  "py_isspace c = (let n = (of_char c :: nat) in
     (9 \<le> n \<and> n \<le> 13) \<or> (28 \<le> n \<and> n \<le> 32) \<or> n = 133 \<or> n = 160)"

definition py_lstrip :: "string \<Rightarrow> string" where
  "py_lstrip s = dropWhile py_isspace s"

definition py_rstrip :: "string \<Rightarrow> string" where
  "py_rstrip s = rev (dropWhile py_isspace (rev s))"

definition py_strip :: "string \<Rightarrow> string" where
  "py_strip s = py_rstrip (py_lstrip s)"

text \<open>\<open>sub in s\<close> for two strings.\<close>

fun contains :: "string \<Rightarrow> string \<Rightarrow> bool" where
  "contains sub [] = (sub = [])"
| "contains sub (c # cs) = (take (length sub) (c # cs) = sub \<or> contains sub cs)"

section \<open>utils.py: extract\_solana\_addresses\<close>

subsection \<open>The pattern \<open>\b[1-9A-HJ-NP-Za-km-z]{32,44}\b\<close> under \<open>re.findall\<close>\<close>

text \<open>The character class of the pattern.\<close>

definition is_base58_char :: "char \<Rightarrow> bool" where
  "is_base58_char c = (let n = (of_char c :: nat) in
     (49 \<le> n \<and> n \<le> 57) \<or> (65 \<le> n \<and> n \<le> 72) \<or> (74 \<le> n \<and> n \<le> 78) \<or>
     (80 \<le> n \<and> n \<le> 90) \<or> (97 \<le> n \<and> n \<le> 107) \<or> (109 \<le> n \<and> n \<le> 122))"

text \<open>
  \<open>\w\<close> of a \<open>str\<close> pattern: alphanumeric or underscore. Below 128 these are the ASCII
  letters and digits; between 128 and 255 the alphanumeric code points of Latin-1.
\<close>

definition is_word_char :: "char \<Rightarrow> bool" where
  "is_word_char c = (let n = (of_char c :: nat) in
     (48 \<le> n \<and> n \<le> 57) \<or> (65 \<le> n \<and> n \<le> 90) \<or> n = 95 \<or> (97 \<le> n \<and> n \<le> 122) \<or>
     n = 170 \<or> n = 178 \<or> n = 179 \<or> n = 181 \<or> n = 185 \<or> n = 186 \<or>
     (188 \<le> n \<and> n \<le> 190) \<or> (192 \<le> n \<and> n \<le> 214) \<or> (216 \<le> n \<and> n \<le> 246) \<or>
     (248 \<le> n \<and> n \<le> 255))"

text \<open>
  \<open>\b\<close> holds between two neighbouring positions when exactly one of them is a word
  character; the outside of the text counts as a non-word character.
\<close>

definition word_boundary :: "char option \<Rightarrow> char option \<Rightarrow> bool" where
  "word_boundary p n =
     ((case p of None \<Rightarrow> False | Some c \<Rightarrow> is_word_char c) \<noteq>
      (case n of None \<Rightarrow> False | Some c \<Rightarrow> is_word_char c))"

definition char_at :: "string \<Rightarrow> nat \<Rightarrow> char option" where
  "char_at s i = (if i < length s then Some (s ! i) else None)"

text \<open>
  One attempt of the matcher at the start of \<open>s\<close>, the character before it being
  \<open>prev\<close>: the leading \<open>\b\<close>, then the greedy repetition, which takes up to 44
  characters of the class and gives them back one at a time, down to 32, until the
  closing \<open>\b\<close> holds.
\<close>

definition match_here :: "char option \<Rightarrow> string \<Rightarrow> string option" where
  "match_here prev s =
     (if \<not> word_boundary prev (char_at s 0) then None
      else let hi = min 44 (length (takeWhile is_base58_char s)) in
        map_option (\<lambda>k. take k s)
          (find (\<lambda>k. word_boundary (char_at s (k - 1)) (char_at s k)) (rev [32..<Suc hi])))"

lemma find_Some_mem: "find P xs = Some x \<Longrightarrow> x \<in> set xs \<and> P x"
  by (induction xs) (auto split: if_splits)

lemma match_here_length:
  assumes "match_here prev s = Some m"
  shows "32 \<le> length m \<and> length m \<le> 44 \<and> length m \<le> length (takeWhile is_base58_char s)
         \<and> m = take (length m) s"
proof -
  define hi where "hi = min 44 (length (takeWhile is_base58_char s))"
  from assms obtain k where
    k: "find (\<lambda>k. word_boundary (char_at s (k - 1)) (char_at s k)) (rev [32..<Suc hi]) = Some k"
    and m: "m = take k s"
    by (auto simp: match_here_def hi_def Let_def split: if_splits)
  from k have "k \<in> set (rev [32..<Suc hi])"
    by (rule find_Some_mem [THEN conjunct1])
  then have r: "32 \<le> k" "k \<le> hi"
    unfolding set_rev set_upt by simp_all
  have "length (takeWhile is_base58_char s) \<le> length s"
    by (rule length_takeWhile_le)
  with r have "k \<le> length s" by (simp add: hi_def)
  with m have "length m = k" by simp
  with r m show ?thesis by (simp add: hi_def)
qed

text \<open>
  \<open>re.findall\<close>: scan from the left; after a match the scan goes on behind it, after a
  failed attempt one character further.
\<close>

function findall_from :: "char option \<Rightarrow> string \<Rightarrow> string list" where
  "findall_from prev [] = []"
| "findall_from prev (c # cs) =
     (case match_here prev (c # cs) of
        Some m \<Rightarrow> m # findall_from (char_at (c # cs) (length m - 1)) (drop (length m) (c # cs))
      | None \<Rightarrow> findall_from (Some c) cs)"
  by pat_completeness auto
termination
proof (relation "measure (\<lambda>(p, s). length s)")
  show "wf (measure (\<lambda>(p, s). length s))" by simp
next
  fix prev :: "char option" and c :: char and cs :: string
  assume "match_here prev (c # cs) = None"
  then show "((Some c, cs), (prev, c # cs)) \<in> measure (\<lambda>(p, s). length s)" by simp
next
  fix prev :: "char option" and c :: char and cs :: string and m :: string
  assume "match_here prev (c # cs) = Some m"
  then have "32 \<le> length m" by (simp add: match_here_length)
  then show "((char_at (c # cs) (length m - 1), drop (length m) (c # cs)), (prev, c # cs))
             \<in> measure (\<lambda>(p, s). length s)" by simp
qed

definition re_findall :: "string \<Rightarrow> string list" where
  "re_findall text = findall_from None text"


subsection \<open>\<open>base58.b58decode\<close>\<close>

text \<open>
  The decoder of the \<open>base58\<close> package in its default (Bitcoin) alphabet: trailing white
  space is dropped, the text must be ASCII, every leading \<open>1\<close> stands for one zero byte,
  the rest is a number in base 58 (a character outside the alphabet raises
  \<open>ValueError\<close>) written big-endian in as many bytes as it needs.
\<close>

definition b58_alphabet :: string where
  "b58_alphabet = ''123456789ABCDEFGHJKLMNPQRSTUVWXYZabcdefghijkmnopqrstuvwxyz''"

fun index_of :: "'a \<Rightarrow> 'a list \<Rightarrow> nat option" where
  "index_of x [] = None"
| "index_of x (y # ys) = (if x = y then Some 0 else map_option Suc (index_of x ys))"

fun b58decode_int :: "nat \<Rightarrow> string \<Rightarrow> exn + nat" where
  "b58decode_int decimal [] = Inr decimal"
| "b58decode_int decimal (c # cs) =
     (case index_of c b58_alphabet of
        None \<Rightarrow> Inl (ValueError ''Invalid character'')
      | Some d \<Rightarrow> b58decode_int (decimal * 58 + d) cs)"

function bytes_little :: "nat \<Rightarrow> nat list" where
  "bytes_little n = (if n = 0 then [] else (n mod 256) # bytes_little (n div 256))"
  by pat_completeness auto
termination
  by (relation "measure id") auto

definition is_ascii :: "char \<Rightarrow> bool" where
  "is_ascii c = ((of_char c :: nat) < 128)"

definition b58decode :: "string \<Rightarrow> exn + nat list" where
  "b58decode v0 =
     (let v = py_rstrip v0 in
      if \<not> list_all is_ascii v then Inl UnicodeEncodeError
      else
        let stripped = dropWhile (\<lambda>c. c = CHR ''1'') v;
            zeros = length v - length stripped
        in case b58decode_int 0 stripped of
             Inl e \<Rightarrow> Inl e
           | Inr acc \<Rightarrow> Inr (replicate zeros 0 @ rev (bytes_little acc)))"

subsection \<open>The function\<close>

text \<open>
  A Python \<open>set\<close> of strings is kept as the list of its elements, without repetition, in
  the order they were added. \<open>s.add(x)\<close>:
\<close>

definition set_add :: "'a \<Rightarrow> 'a list \<Rightarrow> 'a list" where
  "set_add x s = (if x \<in> set s then s else s @ [x])"

text \<open>
  The loop over the candidates. Any exception of the decoder is swallowed by the
  \<open>except Exception: continue\<close>.
\<close>

fun collect_valid :: "string list \<Rightarrow> string list \<Rightarrow> string list" where
  "collect_valid valid_addresses [] = valid_addresses"
| "collect_valid valid_addresses (candidate # rest) =
     (case b58decode candidate of
        Inr decoded \<Rightarrow>
          if length decoded = 32 then collect_valid (set_add candidate valid_addresses) rest
          else collect_valid valid_addresses rest
      | Inl e \<Rightarrow> collect_valid valid_addresses rest)"

definition extract_solana_addresses :: "string \<Rightarrow> string list" where
  "extract_solana_addresses text = collect_valid [] (re_findall text)"

text \<open>
  Iterating over a \<open>set\<close> does not follow the order of insertion: it follows the slots
  of the hash table, and the slot of a string comes from its hash, which is salted anew
  in every process. \<open>slot\<close> stands for the position each string takes in this run.
  \<open>next(iter(s))\<close> on a non-empty set is then the element in the lowest slot.
\<close>

definition next_iter :: "(string \<Rightarrow> nat) \<Rightarrow> string list \<Rightarrow> string" where
  "next_iter slot s = arg_min_list slot s"

section \<open>Numbers and text\<close>

text \<open>\<open>str(n)\<close> and the \<open>{n}\<close> of an f-string, for an integer.\<close>

function str_nat :: "nat \<Rightarrow> string" where
  "str_nat n = (if n < 10 then [char_of (48 + n)]
                else str_nat (n div 10) @ [char_of (48 + n mod 10)])"
  by pat_completeness auto
termination
  by (relation "measure id") auto

definition str_int :: "int \<Rightarrow> string" where
  "str_int i = (if i < 0 then CHR ''-'' # str_nat (nat (- i)) else str_nat (nat i))"

text \<open>
  \<open>int(s)\<close> for a string: white space around the literal is ignored, a sign may lead,
  and the digits may be grouped by single underscores. Anything else raises
  \<open>ValueError\<close>. The white space of \<open>int\<close> is not that of \<open>str.strip\<close>: of the ASCII
  characters only the blank and the characters 9 to 13 count (not 28 to 31), and the
  spaces beyond ASCII count too. A literal of more than 640 digits is also refused
  when it has more digits than the limit of the interpreter
  (\<open>sys.get_int_max_str_digits()\<close>, where 0 stands for no limit).
\<close>

definition int_isspace :: "char \<Rightarrow> bool" where
  "int_isspace c = (let n = (of_char c :: nat) in
     (9 \<le> n \<and> n \<le> 13) \<or> n = 32 \<or> n = 133 \<or> n = 160)"

definition int_strip :: "string \<Rightarrow> string" where
  "int_strip s = rev (dropWhile int_isspace (rev (dropWhile int_isspace s)))"

definition digit_value :: "char \<Rightarrow> nat option" where
  "digit_value c = (let n = (of_char c :: nat) in
     if 48 \<le> n \<and> n \<le> 57 then Some (n - 48) else None)"

fun parse_more :: "nat \<Rightarrow> string \<Rightarrow> nat option" where
  "parse_more acc [] = Some acc"
| "parse_more acc [c] =
     (case digit_value c of None \<Rightarrow> None | Some v \<Rightarrow> Some (acc * 10 + v))"
| "parse_more acc (c # d # ds) =
     (if c = CHR ''_'' then
        (case digit_value d of None \<Rightarrow> None | Some v \<Rightarrow> parse_more (acc * 10 + v) ds)
      else
        (case digit_value c of None \<Rightarrow> None | Some v \<Rightarrow> parse_more (acc * 10 + v) (d # ds)))"

definition parse_digitpart :: "string \<Rightarrow> nat option" where
  "parse_digitpart s =
     (case s of [] \<Rightarrow> None
      | c # cs \<Rightarrow> (case digit_value c of None \<Rightarrow> None | Some v \<Rightarrow> parse_more v cs))"

definition py_int :: "nat \<Rightarrow> string \<Rightarrow> exn + int" where
  "py_int max_str_digits s0 =
     (let s = int_strip s0;
          (neg, body) = (case s of
                           c # cs \<Rightarrow> if c = CHR ''-'' then (True, cs)
                                     else if c = CHR ''+'' then (False, cs) else (False, s)
                         | [] \<Rightarrow> (False, s));
          digits = length (filter (\<lambda>c. c \<noteq> CHR ''_'') body)
      in case parse_digitpart body of
           None \<Rightarrow> Inl (ValueError ''invalid literal for int() with base 10'')
         | Some n \<Rightarrow>
             if 640 < digits \<and> 0 < max_str_digits \<and> max_str_digits < digits then
               Inl (ValueError ''Exceeds the limit for integer string conversion'')
             else Inr (if neg then - int n else int n))"

text \<open>
  Time stamps count microseconds from \<open>datetime.min\<close>, the first moment of year 1;
  \<open>datetime.max\<close>, the last microsecond of year 9999, is the stamp below. A
  \<open>timedelta\<close> holds at most 999999999 days, and a sum that leaves the years 1 to 9999
  raises \<open>OverflowError\<close>.
\<close>

definition datetime_max :: int where
  "datetime_max = 315537897599999999"

definition timedelta_seconds :: "int \<Rightarrow> exn + int" where
  "timedelta_seconds n =
     (if - 999999999 \<le> n div 86400 \<and> n div 86400 \<le> 999999999 then Inr (1000000 * n)
      else Inl (OverflowError ''days must have magnitude <= 999999999''))"

definition timedelta_minutes :: "int \<Rightarrow> exn + int" where
  "timedelta_minutes n = timedelta_seconds (60 * n)"

definition datetime_add :: "int \<Rightarrow> int \<Rightarrow> exn + int" where
  "datetime_add t delta =
     (if 0 \<le> t + delta \<and> t + delta \<le> datetime_max then Inr (t + delta)
      else Inl (OverflowError ''date value out of range''))"

text \<open>
  \<open>str.capitalize\<close> on ASCII text, which is what the game types are: the first letter in
  upper case, the others in lower case.
\<close>

definition ascii_upper :: "char \<Rightarrow> char" where
  "ascii_upper c = (let n = (of_char c :: nat) in
     if 97 \<le> n \<and> n \<le> 122 then char_of (n - 32) else c)"

definition ascii_lower :: "char \<Rightarrow> char" where
  "ascii_lower c = (let n = (of_char c :: nat) in
     if 65 \<le> n \<and> n \<le> 90 then char_of (n + 32) else c)"

definition capitalize :: "string \<Rightarrow> string" where
  "capitalize s = (case s of [] \<Rightarrow> [] | c # cs \<Rightarrow> ascii_upper c # map ascii_lower cs)"

section \<open>The agent's world\<close>

text \<open>
  The text of the four closing announcements and of the opening tweets is fixed in the
  source; the model names each text instead of spelling it. \<open>No_replies_received\<close>,
  \<open>No_valid_wallet_found\<close> and \<open>No_impressive_submission\<close> are the three no-winner
  texts, \<open>Winner_announced w\<close> is the text naming the wallet \<open>w\<close>.
\<close>

datatype announcement =
    No_replies_received
  | No_valid_wallet_found
  | No_impressive_submission
  | Winner_announced string

text \<open>
  An opening tweet is the body of one game type with its \<open>{result_time}\<close> place holder,
  either still open (\<open>None\<close>) or filled by \<open>str.format\<close>. The body of the final
  \<open>else\<close> of \<open>choose_game\<close> has no place holder.
\<close>

datatype game_text =
    Game_open string "string option"
  | Game_type_not_recognized

text \<open>\<open>WinnerResult\<close> and \<open>WinnerResponse\<close>, the schema bound to the model.\<close>

record WinnerResult =
  wallet :: string
  reply_id :: string

record WinnerResponse =
  result :: WinnerResult
  chain_of_thought :: string

text \<open>
  What \<open>select_winner_llm\<close> can return: the structured response, or the dictionary of
  its \<open>except\<close> branch (the first entry and a rationale).
\<close>

datatype verdict =
    Structured WinnerResponse
  | Fallback_dict pydict string

datatype level = INFO | ERROR

text \<open>One constructor for each logging call of the source, with the values it prints.\<close>

datatype log_message =
    Processing_game_closure pyval
  | Rate_limit_reached pyval pyval
  | Error_fetching_replies pyval pyval
  | No_replies_found pyval
  | Replies_received pyval nat
  | No_valid_wallet_addresses pyval
  | Winner_selected pyval verdict
  | Error_posting_announcement pyval pyval
  | Game_updated_with_winner pyval
  | Game_updated_in_db pyval pydict
  | Creating_new_game string int
  | Error_posting_new_game_tweet pyval
  | No_tweet_id_returned
  | New_game_tweet_posted string pyval int
  | Game_created_in_db string

text \<open>What the agent does to the outside, in the order it does it.\<close>

datatype event =
    Log level log_message
  | Reply_to_tweet pyval announcement
  | Post_tweet game_text
  | Insert_one pydict
  | Update_one pyval pydict

text \<open>
  The world: the \<open>games\<close> collection of the store, the events so far, and the number of
  times the clock has been read.
\<close>

record world =
  collection :: "pydict list"
  trace :: "event list"
  ticks :: nat

text \<open>
  What the agent cannot decide: the environment variables, the clock, the answers of the
  platform and of the judge, the random draws, the fresh identifier, where strings fall
  in a hash table, the digit limit of the interpreter, and whether the driver of the
  store raises: \<open>mongo_client\<close> for \<open>MongoClient(uri)\<close>, and \<open>find_error\<close>,
  \<open>insert_one_error\<close>, \<open>update_one_error\<close> for the three calls on the collection
  (\<open>None\<close> when the call goes through).
\<close>

record prompt =
  entries_json :: "pydict list"
  for_game_type :: pyval
  instructions :: string

record env =
  cosmos_mongo_uri :: "string option"
  game_duration :: "string option"
  config_model :: string
  azure_openai_api_key :: "string option"
  azure_openai_endpoint :: "string option"
  clock :: "nat \<Rightarrow> int"
  find_answers_with_conversation_id :: "pyval \<Rightarrow> pydict list"
  reply_to_tweet :: "pyval \<Rightarrow> announcement \<Rightarrow> pydict"
  post_tweet :: "game_text \<Rightarrow> pydict"
  ainvoke :: "prompt \<Rightarrow> exn + WinnerResponse"
  random_game :: nat
  random_minutes :: nat
  uuid4 :: string
  slot :: "string \<Rightarrow> nat"
  int_max_str_digits :: nat
  mongo_client :: "string \<Rightarrow> exn option"
  find_error :: "exn option"
  insert_one_error :: "pydict \<Rightarrow> exn option"
  update_one_error :: "pyval \<Rightarrow> pydict \<Rightarrow> exn option"

definition emit :: "event \<Rightarrow> world \<Rightarrow> world" where
  "emit e w = w\<lparr>trace := trace w @ [e]\<rparr>"

text \<open>\<open>datetime.now()\<close>: the next reading of the clock.\<close>

definition datetime_now :: "env \<Rightarrow> world \<Rightarrow> int \<times> world" where
  "datetime_now e w = (clock e (ticks w), w\<lparr>ticks := Suc (ticks w)\<rparr>)"

section \<open>game\_store.py\<close>

text \<open>
  \<open>GameStore()\<close> needs the connection string and hands it to \<open>MongoClient\<close>, which may
  refuse it.
\<close>

definition GameStore :: "env \<Rightarrow> exn + unit" where
  "GameStore e =
     (case cosmos_mongo_uri e of
        None \<Rightarrow> Inl (ValueError ''COSMOS_MONGO_URI is not set in the environment.'')
      | Some uri \<Rightarrow>
          if uri = [] then Inl (ValueError ''COSMOS_MONGO_URI is not set in the environment.'')
          else (case mongo_client e uri of Some x \<Rightarrow> Inl x | None \<Rightarrow> Inr ()))"

definition create_game ::
  "env \<Rightarrow> string \<Rightarrow> pyval \<Rightarrow> string \<Rightarrow> int \<Rightarrow> world \<Rightarrow> exn option \<times> world" where
  "create_game e game_id tweet_id game_type close_at w =
     (let (now, w1) = datetime_now e w;
          game_doc = [(''game_id'', PStr game_id),
                      (''tweet_id'', tweet_id),
                      (''game_type'', PStr game_type),
                      (''title'', PStr (''Game '' @ capitalize game_type)),
                      (''status'', PStr ''open''),
                      (''created_at'', PTime now),
                      (''close_at'', PTime close_at),
                      (''winner_tweet_id'', PNone),
                      (''winner_wallet'', PNone)]
      in case insert_one_error e game_doc of
           Some x \<Rightarrow> (Some x, w1)
         | None \<Rightarrow>
             (None, emit (Log INFO (Game_created_in_db game_id))
                      (emit (Insert_one game_doc)
                         (w1\<lparr>collection := collection w1 @ [game_doc]\<rparr>))))"

text \<open>\<open>{"$set": fields}\<close> on one document: each field is overwritten or added.\<close>

definition set_fields :: "pydict \<Rightarrow> pydict \<Rightarrow> pydict" where
  "set_fields update_fields doc = fold (\<lambda>(k, v) d. AList.update k v d) update_fields doc"

text \<open>\<open>update_one\<close> changes the first document that matches the filter, if there is one.\<close>

fun update_one :: "pyval \<Rightarrow> pydict \<Rightarrow> pydict list \<Rightarrow> pydict list" where
  "update_one game_id update_fields [] = []"
| "update_one game_id update_fields (doc # docs) =
     (if map_of doc ''game_id'' = Some game_id then set_fields update_fields doc # docs
      else doc # update_one game_id update_fields docs)"

definition update_game :: "env \<Rightarrow> pyval \<Rightarrow> pydict \<Rightarrow> world \<Rightarrow> exn option \<times> world" where
  "update_game e game_id update_fields0 w =
     (let (now, w1) = datetime_now e w;
          update_fields = AList.update ''updated_at'' (PTime now) update_fields0
      in case update_one_error e game_id update_fields of
           Some x \<Rightarrow> (Some x, w1)
         | None \<Rightarrow>
             (None, emit (Log INFO (Game_updated_in_db game_id update_fields))
                      (emit (Update_one game_id update_fields)
                         (w1\<lparr>collection :=
                               update_one game_id update_fields (collection w1)\<rparr>))))"

definition list_open_games :: "env \<Rightarrow> world \<Rightarrow> exn + pydict list" where
  "list_open_games e w =
     (case find_error e of
        Some x \<Rightarrow> Inl x
      | None \<Rightarrow> Inr (filter (\<lambda>doc. map_of doc ''status'' = Some (PStr ''open'')) (collection w)))"

section \<open>game\_agent.py\<close>

subsection \<open>choose\_game\<close>

text \<open>\<open>random.choice(xs)\<close> with the draw \<open>r\<close>, for a non-empty list.\<close>

definition random_choice :: "nat \<Rightarrow> 'a list \<Rightarrow> 'a" where
  "random_choice r xs = xs ! (r mod length xs)"

definition choose_game :: "env \<Rightarrow> string \<times> game_text" where
  "choose_game e =
     (let game_type = random_choice (random_game e)
            [''fun_fact'', ''emoji_story'', ''best_joke'', ''random_wallet'',
             ''improv_story'', ''abstract_poetry'', ''creative_challenge''];
          body =
            (if game_type = ''improv_story'' then Game_open ''improv_story'' None
             else if game_type = ''fun_fact'' then Game_open ''fun_fact'' None
             else if game_type = ''emoji_story'' then Game_open ''emoji_story'' None
             else if game_type = ''best_joke'' then Game_open ''best_joke'' None
             else if game_type = ''abstract_poetry'' then Game_open ''abstract_poetry'' None
             else if game_type = ''creative_challenge'' then Game_open ''creative_challenge'' None
             else if game_type = ''random_wallet'' then Game_open ''random_wallet'' None
             else Game_type_not_recognized)
      in (game_type, body))"

text \<open>\<open>tweet_text.format(result_time=rt)\<close>: fills the place holder where there is one.\<close>

fun format_result_time :: "game_text \<Rightarrow> string \<Rightarrow> game_text" where
  "format_result_time (Game_open g None) rt = Game_open g (Some rt)"
| "format_result_time (Game_open g (Some filled)) rt = Game_open g (Some filled)"
| "format_result_time Game_type_not_recognized rt = Game_type_not_recognized"

subsection \<open>select\_winner\_llm\<close>

definition instructions_for :: "pyval \<Rightarrow> string" where
  "instructions_for game_type =
     (if game_type = PStr ''fun_fact'' then ''pick the entry with the most interesting fact.''
      else if game_type = PStr ''emoji_story'' then
        ''pick the entry with the most creative emoji story.''
      else if game_type = PStr ''fastest_reply'' then
        ''pick the first valid entry, simulating the fastest reply.''
      else if game_type = PStr ''best_joke'' then ''pick the entry with the best joke.''
      else if game_type = PStr ''random_wallet'' then
        ''pick one entry at random, simulating a random selection. don't care about the content. it just needs to be random''
      else if game_type = PStr ''improv_story'' then
        ''pick the entry with the most imaginative story continuation.''
      else if game_type = PStr ''abstract_poetry'' then
        ''pick the entry with the best poetic expression.''
      else if game_type = PStr ''creative_challenge'' then
        ''pick the entry with the most intriguing creative challenge.''
      else ''pick one entry.'')"

text \<open>
  \<open>load_chat_model\<close> of utils.py, as far as it can fail: the name of the model is
  \<open>provider/model\<close>, and the provider \<open>azure\<close> needs its key and its end point.
\<close>

definition split_once :: "char \<Rightarrow> string \<Rightarrow> (string \<times> string) option" where
  "split_once sep s =
     (if sep \<in> set s then
        Some (takeWhile (\<lambda>c. c \<noteq> sep) s, tl (dropWhile (\<lambda>c. c \<noteq> sep) s))
      else None)"

definition is_set :: "string option \<Rightarrow> bool" where
  "is_set v = (case v of None \<Rightarrow> False | Some s \<Rightarrow> s \<noteq> [])"

definition load_chat_model :: "env \<Rightarrow> exn + unit" where
  "load_chat_model e =
     (case split_once CHR ''/'' (config_model e) of
        None \<Rightarrow> Inl (ValueError ''not enough values to unpack (expected 2, got 1)'')
      | Some (provider, model_name) \<Rightarrow>
          if map ascii_lower provider = ''azure'' then
            (if \<not> (is_set (azure_openai_api_key e) \<and> is_set (azure_openai_endpoint e)) then
               Inl (ValueError ''Azure OpenAI credentials are not set in the environment.'')
             else Inr ())
          else Inr ())"

text \<open>\<open>json.dumps\<close> raises \<open>TypeError\<close> on a value that is not JSON, here a time stamp.\<close>

fun json_serializable :: "pyval \<Rightarrow> bool" where
  "json_serializable (PTime t) = False"
| "json_serializable (PDict d) = list_all (\<lambda>kv. json_serializable (snd kv)) d"
| "json_serializable v = True"

text \<open>
  A \<open>try\<close> block whose body evaluates to \<open>body\<close>, with one \<open>except Exception\<close>
  handler.
\<close>

definition try_except :: "exn + 'a \<Rightarrow> (exn \<Rightarrow> exn + 'a) \<Rightarrow> exn + 'a" where
  "try_except body handler = (case body of Inl x \<Rightarrow> handler x | Inr v \<Rightarrow> Inr v)"

text \<open>
  The prompt is the fixed context, the entries as JSON, the game type and its
  instructions; the model keeps the three variable parts apart. \<open>ainvoke\<close> is the call
  \<open>structured_model.ainvoke(prompt)\<close>, which returns a \<open>WinnerResponse\<close> or raises. It
  stands before the \<open>try\<close>; the body of the \<open>try\<close> is \<open>return response\<close>.
\<close>

definition select_winner_llm :: "env \<Rightarrow> pyval \<Rightarrow> pydict list \<Rightarrow> exn + verdict" where
  "select_winner_llm e game_type entries =
     (case load_chat_model e of
        Inl x \<Rightarrow> Inl x
      | Inr model \<Rightarrow>
      if \<not> list_all (\<lambda>entry. json_serializable (PDict entry)) entries then
        Inl (TypeError ''Object is not JSON serializable'')
      else
        case ainvoke e \<lparr>entries_json = entries, for_game_type = game_type,
                         instructions = instructions_for game_type\<rparr> of
          Inl x \<Rightarrow> Inl x
        | Inr response \<Rightarrow>
            try_except (Inr (Structured response))
              (\<lambda>x. case entries of
                      [] \<Rightarrow> Inl IndexError
                    | first # others \<Rightarrow>
                        Inr (Fallback_dict first
                          ''Fallback: selected the first valid entry due to error parsing LLM output.'')))"

subsection \<open>close\_game\_no\_winner\<close>

definition close_game_no_winner :: "env \<Rightarrow> pydict \<Rightarrow> pydict \<Rightarrow> world \<Rightarrow> exn option \<times> world" where
  "close_game_no_winner e game post_announcement w =
     (case subscript game ''game_id'' of
        Inl x \<Rightarrow> (Some x, w)
      | Inr game_id \<Rightarrow>
          update_game e game_id
            [(''status'', PStr ''closed''),
             (''winner_tweet_id'', get_default post_announcement ''id'' (PStr '''')),
             (''winner_wallet'', PStr ''''),
             (''chain_of_thought'', PStr ''''),
             (''winning_tweet_text'', PStr '''')] w)"

subsection \<open>run\_close\_game\_agent\_task\<close>

text \<open>\<open>"429" in error_message\<close>\<close>

fun py_in :: "string \<Rightarrow> pyval \<Rightarrow> exn + bool" where
  "py_in sub (PStr s) = Inr (contains sub s)"
| "py_in sub (PDict d) = Inr (has_key sub d)"
| "py_in sub v = Inl (TypeError ''argument is not iterable'')"

text \<open>The loop that builds \<open>valid_entries\<close> from the replies.\<close>

fun valid_entries_loop :: "env \<Rightarrow> pydict list \<Rightarrow> pydict list \<Rightarrow> exn + pydict list" where
  "valid_entries_loop e valid_entries [] = Inr valid_entries"
| "valid_entries_loop e valid_entries (reply # rest) =
     (case get_default reply ''text'' (PStr '''') of
        PStr content \<Rightarrow>
          (let addresses = extract_solana_addresses content in
           if addresses \<noteq> [] then
             valid_entries_loop e
               (valid_entries @
                 [[(''wallet'', PStr (next_iter (slot e) addresses)),
                   (''text'', PStr content),
                   (''reply_id'', get_default reply ''id'' PNone),
                   (''author'', get_default reply ''author'' (PDict []))]]) rest
           else valid_entries_loop e valid_entries rest)
      | other \<Rightarrow> Inl (TypeError ''expected string or bytes-like object''))"

text \<open>
  \<open>next((entry for entry in valid_entries if entry["reply_id"] == rid), {})\<close>
\<close>

fun winning_entry_of :: "pydict list \<Rightarrow> string \<Rightarrow> exn + pydict" where
  "winning_entry_of [] rid = Inr []"
| "winning_entry_of (entry # rest) rid =
     (case subscript entry ''reply_id'' of
        Inl x \<Rightarrow> Inl x
      | Inr v \<Rightarrow> if v = PStr rid then Inr entry else winning_entry_of rest rid)"

text \<open>
  The last part of the loop body: the announcement for the verdict, the reply to the
  game's tweet, and the update of the record.
\<close>

definition announce_verdict ::
  "env \<Rightarrow> pyval \<Rightarrow> pyval \<Rightarrow> pydict list \<Rightarrow> WinnerResponse \<Rightarrow> world \<Rightarrow> exn option \<times> world" where
  "announce_verdict e game_id tweet_id valid_entries winner w =
     (let announcement =
            (if py_strip (wallet (result winner)) = '''' then No_impressive_submission
             else Winner_announced (wallet (result winner)));
          post_announcement = reply_to_tweet e tweet_id announcement;
          w1 = emit (Reply_to_tweet tweet_id announcement) w
      in if has_key ''error'' post_announcement then
           (None, emit (Log ERROR (Error_posting_announcement game_id
                          (get_default post_announcement ''error'' PNone))) w1)
         else
           let winner_tweet_id = get_default post_announcement ''id'' PNone in
           case winning_entry_of valid_entries (reply_id (result winner)) of
             Inl x \<Rightarrow> (Some x, w1)
           | Inr winning_entry \<Rightarrow>
               (case get_default winning_entry ''author'' (PDict []) of
                  PDict author \<Rightarrow>
                    (case update_game e game_id
                           [(''status'', PStr ''closed''),
                            (''winner_tweet_id'', winner_tweet_id),
                            (''winner_wallet'', PStr (wallet (result winner))),
                            (''chain_of_thought'', PStr (chain_of_thought winner)),
                            (''winning_tweet_text'', get_default winning_entry ''text'' (PStr '''')),
                            (''winner_username'', get_default author ''username'' (PStr '''')),
                            (''winner_name'', get_default author ''name'' (PStr '''')),
                            (''winner_image_url'',
                               get_default author ''profile_image_url'' (PStr '''')),
                            (''winner_author_id'',
                               get_default winning_entry ''author_id'' (PStr '''')),
                            (''winner_is_verified'',
                               get_default author ''verified'' (PBool False))] w1 of
                       (Some x, w2) \<Rightarrow> (Some x, w2)
                     | (None, w2) \<Rightarrow>
                         (None, emit (Log INFO (Game_updated_with_winner game_id)) w2))
                | other \<Rightarrow> (Some (AttributeError ''get''), w1)))"

text \<open>The loop body from the first log line on, for a game that is due.\<close>

definition process_due_game :: "env \<Rightarrow> pydict \<Rightarrow> world \<Rightarrow> exn option \<times> world" where
  "process_due_game e game w =
     (case subscript game ''game_id'' of
        Inl x \<Rightarrow> (Some x, w)
      | Inr game_id \<Rightarrow>
     let w1 = emit (Log INFO (Processing_game_closure game_id)) w in
     case subscript game ''tweet_id'' of
        Inl x \<Rightarrow> (Some x, w1)
      | Inr tweet_id \<Rightarrow>
     let replies = find_answers_with_conversation_id e tweet_id in
     if replies \<noteq> [] \<and> truthy_opt (map_of (hd replies) ''error'') then
       (let error_message = get_default (hd replies) ''error'' PNone in
        case py_in ''429'' error_message of
          Inl x \<Rightarrow> (Some x, w1)
        | Inr True \<Rightarrow> (None, emit (Log ERROR (Rate_limit_reached game_id error_message)) w1)
        | Inr False \<Rightarrow> (None, emit (Log ERROR (Error_fetching_replies game_id error_message)) w1))
     else if replies = [] then
       (let w2 = emit (Log INFO (No_replies_found game_id)) w1;
            post_announcement = reply_to_tweet e tweet_id No_replies_received;
            w3 = emit (Reply_to_tweet tweet_id No_replies_received) w2
        in close_game_no_winner e game post_announcement w3)
     else
       let w2 = emit (Log INFO (Replies_received game_id (length replies))) w1 in
       case valid_entries_loop e [] replies of
         Inl x \<Rightarrow> (Some x, w2)
       | Inr valid_entries \<Rightarrow>
       if valid_entries = [] then
         (let w3 = emit (Log INFO (No_valid_wallet_addresses game_id)) w2;
              post_announcement = reply_to_tweet e tweet_id No_valid_wallet_found;
              w4 = emit (Reply_to_tweet tweet_id No_valid_wallet_found) w3
          in close_game_no_winner e game post_announcement w4)
       else
         case subscript game ''game_type'' of
           Inl x \<Rightarrow> (Some x, w2)
         | Inr game_type \<Rightarrow>
         case select_winner_llm e game_type valid_entries of
           Inl x \<Rightarrow> (Some x, w2)
         | Inr winner \<Rightarrow>
         let w3 = emit (Log INFO (Winner_selected game_id winner)) w2 in
         case winner of
           Fallback_dict first rationale \<Rightarrow> (Some (AttributeError ''result''), w3)
         | Structured response \<Rightarrow>
             announce_verdict e game_id tweet_id valid_entries response w3)"

text \<open>The whole loop body: the guard on \<open>close_at\<close>, then the closure.\<close>

definition close_game :: "env \<Rightarrow> pydict \<Rightarrow> world \<Rightarrow> exn option \<times> world" where
  "close_game e game w =
     (let close_at = map_of game ''close_at'' in
      if \<not> truthy_opt close_at then (None, w)
      else
        let (now, w1) = datetime_now e w in
        case close_at of
          Some (PTime t) \<Rightarrow> if now < t then (None, w1) else process_due_game e game w1
        | other \<Rightarrow> (Some (TypeError ''unsupported operand for <''), w1))"

text \<open>The \<open>for\<close> loop: an exception ends it, and what was done before stays done.\<close>

fun close_loop :: "env \<Rightarrow> pydict list \<Rightarrow> world \<Rightarrow> exn option \<times> world" where
  "close_loop e [] w = (None, w)"
| "close_loop e (game # games) w =
     (case close_game e game w of
        (Some x, w1) \<Rightarrow> (Some x, w1)
      | (None, w1) \<Rightarrow> close_loop e games w1)"

definition run_close_game_agent_task :: "env \<Rightarrow> world \<Rightarrow> exn option \<times> world" where
  "run_close_game_agent_task e w =
     (case GameStore e of
        Inl x \<Rightarrow> (Some x, w)
      | Inr store \<Rightarrow>
          (case list_open_games e w of
             Inl x \<Rightarrow> (Some x, w)
           | Inr open_games \<Rightarrow> close_loop e open_games w))"

subsection \<open>run\_create\_game\_agent\_task\<close>

text \<open>
  The block that determines the duration. Its first branch takes \<open>GAME_DURATION\<close>, in
  seconds; the clock is read before the \<open>timedelta\<close> is built and added.
\<close>

definition configured_duration ::
  "env \<Rightarrow> string \<Rightarrow> game_text \<Rightarrow> world \<Rightarrow> (exn + game_text \<times> int) \<times> world" where
  "configured_duration e game_duration_env tweet_text w =
     (case py_int (int_max_str_digits e) game_duration_env of
        Inl x \<Rightarrow> (Inl x, w)
      | Inr seconds \<Rightarrow>
          (let display_minutes = seconds div 60;
               rendered = format_result_time tweet_text
                            (''In '' @ str_int display_minutes @ '' minutes.'');
               (now, w1) = datetime_now e w
           in case timedelta_seconds seconds of
                Inl x \<Rightarrow> (Inl x, w1)
              | Inr delta \<Rightarrow>
                  (case datetime_add now delta of
                     Inl x \<Rightarrow> (Inl x, w1)
                   | Inr close_at \<Rightarrow> (Inr (rendered, close_at), w1))))"

text \<open>Its second branch draws one of six numbers of minutes.\<close>

definition random_duration ::
  "env \<Rightarrow> game_text \<Rightarrow> world \<Rightarrow> (exn + game_text \<times> int) \<times> world" where
  "random_duration e tweet_text w =
     (let random_minutes = random_choice (random_minutes e) [30, 60, 90, 120, 150, 180];
          rendered = format_result_time tweet_text
                       (''In '' @ str_int random_minutes @ '' minutes.'');
          (now, w1) = datetime_now e w
      in case timedelta_minutes random_minutes of
           Inl x \<Rightarrow> (Inl x, w1)
         | Inr delta \<Rightarrow>
             (case datetime_add now delta of
                Inl x \<Rightarrow> (Inl x, w1)
              | Inr close_at \<Rightarrow> (Inr (rendered, close_at), w1)))"

text \<open>
  The first branch is taken when \<open>GAME_DURATION\<close> is set and not blank. The block gives
  the tweet text with the place holder filled, and \<open>close_at\<close>.
\<close>

definition determine_game_duration ::
  "env \<Rightarrow> game_text \<Rightarrow> world \<Rightarrow> (exn + game_text \<times> int) \<times> world" where
  "determine_game_duration e tweet_text w =
     (case game_duration e of
        None \<Rightarrow> random_duration e tweet_text w
      | Some game_duration_env \<Rightarrow>
          if game_duration_env \<noteq> [] \<and> py_strip game_duration_env \<noteq> [] then
            configured_duration e game_duration_env tweet_text w
          else random_duration e tweet_text w)"

definition run_create_game_agent_task :: "env \<Rightarrow> world \<Rightarrow> exn option \<times> world" where
  "run_create_game_agent_task e w =
     (let (game_type, tweet_text) = choose_game e;
          (now, w1) = datetime_now e w;
          w2 = emit (Log INFO (Creating_new_game game_type now)) w1;
          post_result = post_tweet e tweet_text;
          w3 = emit (Post_tweet tweet_text) w2
      in if has_key ''error'' post_result then
           (None, emit (Log ERROR (Error_posting_new_game_tweet
                          (get_default post_result ''error'' PNone))) w3)
         else
           let tweet_id = get_default post_result ''id'' PNone in
           if \<not> truthy tweet_id then (None, emit (Log ERROR No_tweet_id_returned) w3)
           else
             case determine_game_duration e tweet_text w3 of
               (Inl x, w4) \<Rightarrow> (Some x, w4)
             | (Inr (tweet_text', close_at), w4) \<Rightarrow>
                 (let w5 = emit (Log INFO (New_game_tweet_posted game_type tweet_id close_at)) w4
                  in case GameStore e of
                       Inl x \<Rightarrow> (Some x, w5)
                     | Inr store \<Rightarrow>
                         create_game e (uuid4 e) tweet_id game_type close_at w5))"

section \<open>scheduler.py: the two jobs\<close>

text \<open>
  The scheduler fires two jobs, \<open>create_game_job\<close> and \<open>close_game_job\<close>, again and
  again, each firing in the environment of its moment. An exception of a job is logged
  by the scheduler; what the job did before stays done.
\<close>

datatype job = Create_game_job | Close_game_job

definition run_job :: "job \<Rightarrow> env \<Rightarrow> world \<Rightarrow> world" where
  "run_job j e w =
     (case j of
        Create_game_job \<Rightarrow> snd (run_create_game_agent_task e w)
      | Close_game_job \<Rightarrow> snd (run_close_game_agent_task e w))"

fun run_jobs :: "(job \<times> env) list \<Rightarrow> world \<Rightarrow> world" where
  "run_jobs [] w = w"
| "run_jobs ((j, e) # rest) w = run_jobs rest (run_job j e w)"

section \<open>Notions for the statements\<close>

text \<open>
  The updates the agent sends to the store when it closes a game: pairwise different
  fields, \<open>game_id\<close> not among them, \<open>status\<close> set to \<open>closed\<close>, and either an
  empty \<open>winner_wallet\<close> or an empty \<open>winner_author_id\<close>.
\<close>

definition closing_fields :: "pydict \<Rightarrow> bool" where
  "closing_fields fs =
     (distinct (map fst fs) \<and> ''game_id'' \<notin> set (map fst fs) \<and>
      map_of fs ''status'' = Some (PStr ''closed'') \<and>
      (map_of fs ''winner_wallet'' = Some (PStr '''') \<or>
       map_of fs ''winner_author_id'' = Some (PStr '''')))"

text \<open>The \<open>game_id\<close> column of the collection.\<close>

definition game_ids :: "pydict list \<Rightarrow> pyval option list" where
  "game_ids c = map (\<lambda>doc. map_of doc ''game_id'') c"

text \<open>
  \<open>uuid4\<close> gives an identifier that no stored game has: along a run of jobs, every
  firing of the create job draws an identifier that is not in the collection.
\<close>

fun fresh_identifiers :: "(job \<times> env) list \<Rightarrow> world \<Rightarrow> bool" where
  "fresh_identifiers [] w = True"
| "fresh_identifiers ((j, e) # rest) w =
     ((j = Create_game_job \<longrightarrow> Some (PStr (uuid4 e)) \<notin> set (game_ids (collection w))) \<and>
      fresh_identifiers rest (run_job j e w))"

section \<open>Example inputs\<close>

text \<open>Two addresses: thirty-two zero bytes, and thirty-one zero bytes followed by a one.\<close>

definition addr_A :: string where
  "addr_A = ''11111111111111111111111111111111''"

definition addr_B :: string where
  "addr_B = ''11111111111111111111111111111112''"

text \<open>An open game as \<open>create_game\<close> stores it, due from time 100 on.\<close>

definition example_game :: pydict where
  "example_game =
     [(''game_id'', PStr ''g1''), (''tweet_id'', PStr ''t1''), (''game_type'', PStr ''best_joke''),
      (''title'', PStr ''Game Best_joke''), (''status'', PStr ''open''),
      (''created_at'', PTime 0), (''close_at'', PTime 100),
      (''winner_tweet_id'', PNone), (''winner_wallet'', PNone)]"

text \<open>A reply as \<open>find_answers_with_conversation_id\<close> returns it.\<close>

definition example_reply :: pydict where
  "example_reply =
     [(''id'', PStr ''r1''), (''text'', PStr (''knock knock '' @ addr_A)),
      (''author'', PDict [(''username'', PStr ''ann''), (''profile_image_url'', PStr ''img''),
                          (''verified'', PBool False), (''name'', PStr ''Ann'')])]"

text \<open>
  An environment in which every call succeeds: one reply, a judge that names it, posts
  that return an identifier, a store that answers, a duration of 120 seconds, and a
  clock that starts in the year 2025.
\<close>

definition example_env :: env where
  "example_env =
     \<lparr>cosmos_mongo_uri = Some ''mongodb://store'',
      game_duration = Some ''120'',
      config_model = ''azure/gpt-4o'',
      azure_openai_api_key = Some ''key'',
      azure_openai_endpoint = Some ''https://judge.example'',
      clock = (\<lambda>n. 63900000000000000 + int n),
      find_answers_with_conversation_id = (\<lambda>tweet_id. [example_reply]),
      reply_to_tweet = (\<lambda>tweet_id text. [(''id'', PStr ''a1''), (''status'', PStr ''success'')]),
      post_tweet = (\<lambda>text. [(''id'', PStr ''t2''), (''status'', PStr ''success'')]),
      ainvoke = (\<lambda>p. Inr \<lparr>result = \<lparr>wallet = addr_A, reply_id = ''r1''\<rparr>,
                           chain_of_thought = ''funniest''\<rparr>),
      random_game = 2,
      random_minutes = 0,
      uuid4 = ''g2'',
      slot = (\<lambda>s. 0),
      int_max_str_digits = 4300,
      mongo_client = (\<lambda>uri. None),
      find_error = None,
      insert_one_error = (\<lambda>doc. None),
      update_one_error = (\<lambda>game_id update_fields. None)\<rparr>"

definition example_world :: world where
  "example_world = \<lparr>collection = [example_game], trace = [], ticks = 0\<rparr>"

text \<open>A game that was closed with a winner, and a world that holds it next to the open one.\<close>

definition closed_game :: pydict where
  "closed_game =
     [(''game_id'', PStr ''g0''), (''tweet_id'', PStr ''t0''), (''game_type'', PStr ''fun_fact''),
      (''title'', PStr ''Game Fun_fact''), (''status'', PStr ''closed''),
      (''created_at'', PTime 0), (''close_at'', PTime 50),
      (''winner_tweet_id'', PStr ''a0''), (''winner_wallet'', PStr addr_B),
      (''chain_of_thought'', PStr ''rare fact''), (''winning_tweet_text'', PStr addr_B),
      (''updated_at'', PTime 60)]"

definition two_games_world :: world where
  "two_games_world = \<lparr>collection = [closed_game, example_game], trace = [], ticks = 0\<rparr>"

definition example_jobs :: "(job \<times> env) list" where
  "example_jobs = [(Close_game_job, example_env), (Create_game_job, example_env),
                   (Close_game_job, example_env)]"

text \<open>The platform answers the fetch with a rate-limit error, or with another error.\<close>

definition rate_limited_env :: env where
  "rate_limited_env = example_env
     \<lparr>find_answers_with_conversation_id :=
        (\<lambda>tweet_id. [[(''error'', PStr ''Twitter API error: 429 Too Many Requests'')]])\<rparr>"

definition fetch_failing_env :: env where
  "fetch_failing_env = example_env
     \<lparr>find_answers_with_conversation_id :=
        (\<lambda>tweet_id. [[(''error'', PStr ''Failed to fetch replies: timeout'')]])\<rparr>"

text \<open>The entry that the example reply yields.\<close>

definition example_entry :: pydict where
  "example_entry =
     [(''wallet'', PStr addr_A), (''text'', PStr (''knock knock '' @ addr_A)),
      (''reply_id'', PStr ''r1''),
      (''author'', PDict [(''username'', PStr ''ann''), (''profile_image_url'', PStr ''img''),
                          (''verified'', PBool False), (''name'', PStr ''Ann'')])]"




text \<open>The output of the judge cannot be parsed into a \<open>WinnerResponse\<close>.\<close>

definition judge_failing_env :: env where
  "judge_failing_env = example_env
     \<lparr>ainvoke := (\<lambda>p. Inl (OutputParserException ''Failed to parse WinnerResponse''))\<rparr>"

text \<open>
  A reply that names two addresses, \<open>addr_A\<close> before \<open>addr_B\<close>, in a run where the
  hash table puts \<open>addr_B\<close> into the lower slot.
\<close>

definition two_address_reply :: pydict where
  "two_address_reply =
     [(''id'', PStr ''r2''), (''text'', PStr (addr_A @ '' or '' @ addr_B))]"

definition two_address_env :: env where
  "two_address_env = example_env
     \<lparr>find_answers_with_conversation_id := (\<lambda>tweet_id. [two_address_reply]),
      slot := (\<lambda>s. if s = addr_B then 0 else 1)\<rparr>"

text \<open>The platform refuses the opening tweet, or accepts it without giving an identifier.\<close>

definition post_failing_env :: env where
  "post_failing_env = example_env
     \<lparr>post_tweet := (\<lambda>text. [(''error'', PStr ''Failed to post tweet'')])\<rparr>"

definition post_without_id_env :: env where
  "post_without_id_env = example_env \<lparr>post_tweet := (\<lambda>text. [(''status'', PStr ''success'')])\<rparr>"

text \<open>No duration is configured.\<close>

definition random_duration_env :: env where
  "random_duration_env = example_env \<lparr>game_duration := None, random_minutes := 4\<rparr>"



text \<open>The connection string of the store is not set.\<close>

definition store_unset_env :: env where
  "store_unset_env = example_env \<lparr>cosmos_mongo_uri := None\<rparr>"

text \<open>
  A duration of \<open>10^12\<close> seconds, which is more than a \<open>timedelta\<close> holds, and a duration
  that is no number.
\<close>

definition long_duration_env :: env where
  "long_duration_env = example_env \<lparr>game_duration := Some ''1000000000000''\<rparr>"

definition bad_duration_env :: env where
  "bad_duration_env = example_env \<lparr>game_duration := Some ''two hours''\<rparr>"

section \<open>Properties of the address extraction\<close>

lemma match_here_props:
  assumes "match_here prev s = Some m"
  shows "(\<exists>post. s = m @ post) \<and> list_all is_base58_char m \<and> 32 \<le> length m \<and> length m \<le> 44"
proof -
  from match_here_length [OF assms]
  have l: "32 \<le> length m" "length m \<le> 44" "length m \<le> length (takeWhile is_base58_char s)"
    and t: "m = take (length m) s" by simp_all
  have "s = take (length m) s @ drop (length m) s" by simp
  with t have e: "\<exists>post. s = m @ post" by metis
  have "take (length m) s = take (length m) (takeWhile is_base58_char s)"
    using l(3) by (metis append_eq_conv_conj takeWhile_dropWhile_id take_append take_all_iff
        diff_is_0_eq' take0 append_Nil2)
  then have "set m \<subseteq> set (takeWhile is_base58_char s)"
    using t by (metis set_take_subset)
  then have "list_all is_base58_char m"
    by (auto simp: list_all_iff dest: set_takeWhileD)
  with e l show ?thesis by simp
qed

lemma findall_from_props:
  "m \<in> set (findall_from prev s) \<Longrightarrow>
     (\<exists>pre post. s = pre @ m @ post) \<and> list_all is_base58_char m \<and>
     32 \<le> length m \<and> length m \<le> 44"
proof (induction prev s rule: findall_from.induct)
  case (1 prev)
  then show ?case by simp
next
  case (2 prev c cs)
  show ?case
  proof (cases "match_here prev (c # cs)")
    case None
    with 2 have "m \<in> set (findall_from (Some c) cs)" by simp
    with 2(1) [OF None]
    have h: "(\<exists>pre post. cs = pre @ m @ post) \<and> list_all is_base58_char m \<and>
             32 \<le> length m \<and> length m \<le> 44"
      by simp
    then obtain pre post where "cs = pre @ m @ post" by blast
    then have "c # cs = (c # pre) @ m @ post" by simp
    with h show ?thesis by blast
  next
    case (Some m')
    with 2(3) have "m = m' \<or>
        m \<in> set (findall_from (char_at (c # cs) (length m' - 1)) (drop (length m') (c # cs)))"
      by simp
    then show ?thesis
    proof
      assume "m = m'"
      with Some match_here_props [of prev "c # cs" m'] show ?thesis
        by (metis append_Nil)
    next
      assume "m \<in> set (findall_from (char_at (c # cs) (length m' - 1))
                         (drop (length m') (c # cs)))"
      with 2(2) [OF Some]
      have h: "(\<exists>pre post. drop (length m') (c # cs) = pre @ m @ post) \<and>
               list_all is_base58_char m \<and> 32 \<le> length m \<and> length m \<le> 44"
        by simp
      then obtain pre post where "drop (length m') (c # cs) = pre @ m @ post" by blast
      then have "c # cs = (take (length m') (c # cs) @ pre) @ m @ post"
        by (metis append_take_drop_id append_assoc)
      with h show ?thesis by blast
    qed
  qed
qed

lemma collect_valid_distinct:
  "distinct valid \<Longrightarrow> distinct (collect_valid valid cs)"
  by (induction cs arbitrary: valid) (auto simp: set_add_def split: sum.splits)

lemma collect_valid_subset:
  "a \<in> set (collect_valid valid cs) \<Longrightarrow>
     a \<in> set valid \<or> (a \<in> set cs \<and> (\<exists>bs. b58decode a = Inr bs \<and> length bs = 32))"
proof (induction cs arbitrary: valid)
  case Nil
  then show ?case by simp
next
  case (Cons c cs)
  show ?case
  proof (cases "b58decode c")
    case (Inl e)
    with Cons.prems have "a \<in> set (collect_valid valid cs)" by simp
    from Cons.IH [OF this] show ?thesis by auto
  next
    case (Inr decoded)
    show ?thesis
    proof (cases "length decoded = 32")
      case True
      with Inr Cons.prems have "a \<in> set (collect_valid (set_add c valid) cs)" by simp
      from Cons.IH [OF this] have "a \<in> set valid \<or> a = c \<or>
          (a \<in> set cs \<and> (\<exists>bs. b58decode a = Inr bs \<and> length bs = 32))"
        by (auto simp: set_add_def split: if_splits)
      with Inr True show ?thesis by auto
    next
      case False
      with Inr Cons.prems have "a \<in> set (collect_valid valid cs)" by simp
      from Cons.IH [OF this] show ?thesis by auto
    qed
  qed
qed

text \<open>
  Claim C9. For every input text, the addresses returned by
  \<open>extract_solana_addresses\<close> are free of repetitions, and each of them is a contiguous
  piece of the text, made of characters of the base58 alphabet only, between 32 and 44
  characters long, which \<open>b58decode\<close> decodes without error into exactly 32 bytes. The
  function is a function of the text alone.
\<close>

theorem extract_solana_addresses_sound:
  "distinct (extract_solana_addresses text) \<and>
   (\<forall>a \<in> set (extract_solana_addresses text).
      (\<exists>pre post. text = pre @ a @ post) \<and>
      list_all is_base58_char a \<and> 32 \<le> length a \<and> length a \<le> 44 \<and>
      (\<exists>bs. b58decode a = Inr bs \<and> length bs = 32))"
proof (rule conjI, goal_cases)
  case 1
  show ?case
    by (simp add: extract_solana_addresses_def collect_valid_distinct)
next
  case 2
  have "(\<exists>pre post. text = pre @ a @ post) \<and>
      list_all is_base58_char a \<and> 32 \<le> length a \<and> length a \<le> 44 \<and>
      (\<exists>bs. b58decode a = Inr bs \<and> length bs = 32)"
    if "a \<in> set (extract_solana_addresses text)" for a
  proof -
  from that have "a \<in> set (collect_valid [] (re_findall text))"
    by (simp add: extract_solana_addresses_def)
  from collect_valid_subset [OF this]
  have m: "a \<in> set (findall_from None text)"
    and d: "\<exists>bs. b58decode a = Inr bs \<and> length bs = 32"
    by (simp_all add: re_findall_def)
  from findall_from_props [OF m] d
  show ?thesis
    by simp
  qed
  then show ?case by blast
qed

lemma extract_example:
  "extract_solana_addresses ''gm 11111111111111111111111111111112 !'' =
     [''11111111111111111111111111111112'']"
  by code_simp

theorem extract_solana_addresses_sound_witness:
  "''11111111111111111111111111111112''
     \<in> set (extract_solana_addresses ''gm 11111111111111111111111111111112 !'') \<and>
   distinct (extract_solana_addresses ''gm 11111111111111111111111111111112 !'') \<and>
   (\<exists>pre post. ''gm 11111111111111111111111111111112 !''
      = pre @ ''11111111111111111111111111111112'' @ post) \<and>
   (\<exists>bs. b58decode ''11111111111111111111111111111112'' = Inr bs \<and> length bs = 32)"
  using extract_solana_addresses_sound [of "''gm 11111111111111111111111111111112 !''"]
  by (simp add: extract_example)

section \<open>Properties of the store and of one closure\<close>

lemma collection_emit [simp]: "collection (emit ev w) = collection w"
  by (simp add: emit_def)

lemma ticks_emit [simp]: "ticks (emit ev w) = ticks w"
  by (simp add: emit_def)

lemma trace_emit [simp]: "trace (emit ev w) = trace w @ [ev]"
  by (simp add: emit_def)

lemma set_fields_Cons: "set_fields ((k, v) # fs) d = set_fields fs (AList.update k v d)"
  by (simp add: set_fields_def)

lemma set_fields_lookup:
  "distinct (map fst fs) \<Longrightarrow>
     map_of (set_fields fs d) k = (case map_of fs k of Some v \<Rightarrow> Some v | None \<Rightarrow> map_of d k)"
proof (induction fs arbitrary: d)
  case Nil
  show ?case by (simp add: set_fields_def)
next
  case (Cons kv fs)
  obtain k' v' where kv: "kv = (k', v')" by (cases kv)
  from Cons.prems kv have d: "distinct (map fst fs)" and n: "k' \<notin> fst ` set fs" by simp_all
  from n have none: "map_of fs k' = None" by (simp add: map_of_eq_None_iff)
  have "map_of (set_fields (kv # fs) d) k =
          (case map_of fs k of Some v \<Rightarrow> Some v | None \<Rightarrow> map_of (AList.update k' v' d) k)"
    unfolding kv set_fields_Cons by (rule Cons.IH [OF d])
  also have "\<dots> = (case map_of (kv # fs) k of Some v \<Rightarrow> Some v | None \<Rightarrow> map_of d k)"
    using none by (simp add: kv AList.update_conv' split: option.splits)
  finally show ?case .
qed

lemma update_one_length [simp]: "length (update_one gid fs c) = length c"
  by (induction c) auto

lemma update_one_nth:
  "i < length c \<Longrightarrow> map_of (c ! i) ''game_id'' \<noteq> Some gid \<Longrightarrow> update_one gid fs c ! i = c ! i"
proof (induction c arbitrary: i)
  case Nil
  then show ?case by simp
next
  case (Cons d c)
  then show ?case by (cases i) auto
qed

lemma update_one_new:
  "d' \<in> set (update_one gid fs c) \<Longrightarrow> d' \<notin> set c \<Longrightarrow> \<exists>d \<in> set c. d' = set_fields fs d"
  by (induction c) (auto split: if_splits)

lemma update_game_cases:
  assumes "update_game e gid fs w = (r, w')"
  shows "(r \<noteq> None \<and> collection w' = collection w) \<or>
         (r = None \<and>
          collection w' =
            update_one gid (AList.update ''updated_at'' (PTime (clock e (ticks w))) fs)
              (collection w))"
proof (cases "update_one_error e gid
                (AList.update ''updated_at'' (PTime (clock e (ticks w))) fs)")
  case None
  with assms show ?thesis
    by (auto simp: update_game_def datetime_now_def Let_def)
next
  case (Some x)
  with assms have "r = Some x" "w' = w\<lparr>ticks := Suc (ticks w)\<rparr>"
    by (simp_all add: update_game_def datetime_now_def Let_def)
  then show ?thesis by simp
qed

lemma update_game_accepted:
  assumes "update_one_error e gid (AList.update ''updated_at'' (PTime (clock e (ticks w))) fs) = None"
  shows "update_game e gid fs w =
           (None, w\<lparr>ticks := Suc (ticks w),
                    collection :=
                      update_one gid (AList.update ''updated_at'' (PTime (clock e (ticks w))) fs)
                        (collection w),
                    trace := trace w @
                      [Update_one gid (AList.update ''updated_at'' (PTime (clock e (ticks w))) fs),
                       Log INFO (Game_updated_in_db gid
                         (AList.update ''updated_at'' (PTime (clock e (ticks w))) fs))]\<rparr>)"
  using assms by (simp add: update_game_def datetime_now_def Let_def emit_def)

lemma valid_entries_loop_keys:
  "valid_entries_loop e acc replies = Inr ves \<Longrightarrow>
   \<forall>en \<in> set acc. map fst en = [''wallet'', ''text'', ''reply_id'', ''author''] \<Longrightarrow>
   \<forall>en \<in> set ves. map fst en = [''wallet'', ''text'', ''reply_id'', ''author'']"
proof (induction replies arbitrary: acc)
  case Nil
  then show ?case by simp
next
  case (Cons reply rest)
  show ?case
  proof (cases "get_default reply ''text'' (PStr '''')")
    case (PStr content)
    show ?thesis
    proof (cases "extract_solana_addresses content = []")
      case True
      with PStr Cons.prems(1) have "valid_entries_loop e acc rest = Inr ves" by simp
      from Cons.IH [OF this Cons.prems(2)] show ?thesis .
    next
      case False
      define en where "en = [(''wallet'', PStr (next_iter (slot e) (extract_solana_addresses content))),
                   (''text'', PStr content),
                   (''reply_id'', get_default reply ''id'' PNone),
                   (''author'', get_default reply ''author'' (PDict []))]"
      from False PStr Cons.prems(1) have l: "valid_entries_loop e (acc @ [en]) rest = Inr ves"
        by (simp add: en_def Let_def)
      have "\<forall>x \<in> set (acc @ [en]). map fst x = [''wallet'', ''text'', ''reply_id'', ''author'']"
        using Cons.prems(2) by (simp add: en_def)
      from Cons.IH [OF l this] show ?thesis .
    qed
  qed (use Cons.prems(1) in simp_all)
qed

lemma winning_entry_of_keys:
  "\<forall>en \<in> set ves. map fst en = [''wallet'', ''text'', ''reply_id'', ''author''] \<Longrightarrow>
   \<exists>we. winning_entry_of ves rid = Inr we \<and> (we = [] \<or> we \<in> set ves)"
proof (induction ves)
  case Nil
  then show ?case by simp
next
  case (Cons en ves)
  from Cons.prems have "set (map fst en) = set [''wallet'', ''text'', ''reply_id'', ''author'']"
    by simp
  then have "''reply_id'' \<in> fst ` set en"
    by simp
  then have "map_of en ''reply_id'' \<noteq> None"
    by (simp add: map_of_eq_None_iff)
  then obtain v where "map_of en ''reply_id'' = Some v"
    by blast
  then have s: "subscript en ''reply_id'' = Inr v" by (simp add: subscript_def)
  from Cons have "\<exists>we. winning_entry_of ves rid = Inr we \<and> (we = [] \<or> we \<in> set ves)" by simp
  with s show ?case by auto
qed

lemma no_author_id:
  assumes "we = [] \<or> map fst we = [''wallet'', ''text'', ''reply_id'', ''author'']"
  shows "get_default we ''author_id'' (PStr '''') = PStr ''''"
proof -
  have "''author_id'' \<notin> fst ` set we"
  proof (cases "we = []")
    case True
    then show ?thesis by simp
  next
    case False
    with assms have "set (map fst we) = set [''wallet'', ''text'', ''reply_id'', ''author'']"
      by simp
    then have "fst ` set we = {''wallet'', ''text'', ''reply_id'', ''author''}"
      by simp
    then show ?thesis by simp
  qed
  then have "map_of we ''author_id'' = None" by (simp add: map_of_eq_None_iff)
  then show ?thesis by (simp add: get_default_def)
qed

lemma close_game_no_winner_cases:
  assumes "close_game_no_winner e game post w = (r, w')"
  shows "collection w' = collection w \<or>
         (\<exists>gid fs. map_of game ''game_id'' = Some gid \<and>
            collection w' = update_one gid fs (collection w) \<and> closing_fields fs)"
proof (cases "map_of game ''game_id''")
  case None
  with assms show ?thesis by (simp add: close_game_no_winner_def subscript_def)
next
  case (Some gid)
  define fs where "fs = AList.update ''updated_at'' (PTime (clock e (ticks w)))
             [(''status'', PStr ''closed''),
              (''winner_tweet_id'', get_default post ''id'' (PStr '''')),
              (''winner_wallet'', PStr ''''),
              (''chain_of_thought'', PStr ''''),
              (''winning_tweet_text'', PStr '''')]"
  from assms Some have "update_game e gid
             [(''status'', PStr ''closed''),
              (''winner_tweet_id'', get_default post ''id'' (PStr '''')),
              (''winner_wallet'', PStr ''''),
              (''chain_of_thought'', PStr ''''),
              (''winning_tweet_text'', PStr '''')] w = (r, w')"
    by (simp add: close_game_no_winner_def subscript_def)
  from update_game_cases [OF this]
  have "collection w' = collection w \<or> collection w' = update_one gid fs (collection w)"
    unfolding fs_def by blast
  moreover have "closing_fields fs"
    by (simp add: closing_fields_def fs_def)
  ultimately show ?thesis using Some by blast
qed

lemma announce_verdict_cases:
  assumes "announce_verdict e gid tid ves winner w = (r, w')"
    and "\<forall>en \<in> set ves. map fst en = [''wallet'', ''text'', ''reply_id'', ''author'']"
  shows "collection w' = collection w \<or>
         (\<exists>fs. collection w' = update_one gid fs (collection w) \<and> closing_fields fs)"
proof -
  define ann where "ann = (if py_strip (wallet (result winner)) = '''' then No_impressive_submission
             else Winner_announced (wallet (result winner)))"
  define post where "post = reply_to_tweet e tid ann"
  define w1 where "w1 = emit (Reply_to_tweet tid ann) w"
  from winning_entry_of_keys [OF assms(2)] obtain we where
    we: "winning_entry_of ves (reply_id (result winner)) = Inr we" and
    mem: "we = [] \<or> we \<in> set ves" by blast
  from mem assms(2) have "we = [] \<or> map fst we = [''wallet'', ''text'', ''reply_id'', ''author'']"
    by blast
  then have aid: "get_default we ''author_id'' (PStr '''') = PStr ''''"
    by (rule no_author_id)
  show ?thesis
  proof (cases "has_key ''error'' post")
    case True
    with assms(1) have "w' = emit (Log ERROR (Error_posting_announcement gid
                          (get_default post ''error'' PNone))) w1"
      by (simp add: announce_verdict_def Let_def ann_def post_def w1_def)
    then show ?thesis by (simp add: w1_def)
  next
    case False
    show ?thesis
    proof (cases "get_default we ''author'' (PDict [])")
      case (PDict author)
      define fs where "fs = AList.update ''updated_at'' (PTime (clock e (ticks w1)))
                           [(''status'', PStr ''closed''),
                            (''winner_tweet_id'', get_default post ''id'' PNone),
                            (''winner_wallet'', PStr (wallet (result winner))),
                            (''chain_of_thought'', PStr (chain_of_thought winner)),
                            (''winning_tweet_text'', get_default we ''text'' (PStr '''')),
                            (''winner_username'', get_default author ''username'' (PStr '''')),
                            (''winner_name'', get_default author ''name'' (PStr '''')),
                            (''winner_image_url'',
                               get_default author ''profile_image_url'' (PStr '''')),
                            (''winner_author_id'', PStr ''''),
                            (''winner_is_verified'',
                               get_default author ''verified'' (PBool False))]"
      obtain r2 w2 where u: "update_game e gid
                           [(''status'', PStr ''closed''),
                            (''winner_tweet_id'', get_default post ''id'' PNone),
                            (''winner_wallet'', PStr (wallet (result winner))),
                            (''chain_of_thought'', PStr (chain_of_thought winner)),
                            (''winning_tweet_text'', get_default we ''text'' (PStr '''')),
                            (''winner_username'', get_default author ''username'' (PStr '''')),
                            (''winner_name'', get_default author ''name'' (PStr '''')),
                            (''winner_image_url'',
                               get_default author ''profile_image_url'' (PStr '''')),
                            (''winner_author_id'', PStr ''''),
                            (''winner_is_verified'',
                               get_default author ''verified'' (PBool False))] w1 = (r2, w2)"
        by (rule prod.exhaust)
      from assms(1) False we PDict aid u
      have "collection w' = collection w2"
        by (auto simp: announce_verdict_def Let_def ann_def post_def w1_def
            split: option.splits)
      with update_game_cases [OF u]
      have "collection w' = collection w1 \<or> collection w' = update_one gid fs (collection w1)"
        unfolding fs_def by auto
      moreover have "closing_fields fs"
        by (simp add: closing_fields_def fs_def)
      ultimately show ?thesis by (auto simp: w1_def)
    qed (use assms(1) False we in
          \<open>auto simp: announce_verdict_def Let_def ann_def post_def w1_def\<close>)
  qed
qed

lemma process_due_game_cases:
  assumes "process_due_game e game w = (r, w')"
  shows "collection w' = collection w \<or>
         (\<exists>gid fs. map_of game ''game_id'' = Some gid \<and>
            collection w' = update_one gid fs (collection w) \<and> closing_fields fs)"
proof (cases "map_of game ''game_id''")
  case None
  with assms show ?thesis by (simp add: process_due_game_def subscript_def)
next
  case gid: (Some gid)
  define w1 where "w1 = emit (Log INFO (Processing_game_closure gid)) w"
  have c1: "collection w1 = collection w" by (simp add: w1_def)
  show ?thesis
  proof (cases "map_of game ''tweet_id''")
    case None
    with assms gid show ?thesis by (auto simp: process_due_game_def subscript_def)
  next
    case tid: (Some tid)
    define replies where "replies = find_answers_with_conversation_id e tid"
    consider (err) "replies \<noteq> [] \<and> truthy_opt (map_of (hd replies) ''error'')"
      | (empty) "replies = []"
      | (some) "replies \<noteq> []" "\<not> truthy_opt (map_of (hd replies) ''error'')"
      by blast
    then show ?thesis
    proof cases
      case err
      with assms gid tid have "collection w' = collection w"
        by (auto simp: process_due_game_def subscript_def Let_def replies_def
            split: sum.splits bool.splits if_splits)
      then show ?thesis by simp
    next
      case empty
      with assms gid tid have
        "close_game_no_winner e game (reply_to_tweet e tid No_replies_received)
           (emit (Reply_to_tweet tid No_replies_received)
              (emit (Log INFO (No_replies_found gid)) w1)) = (r, w')"
        by (simp add: process_due_game_def subscript_def Let_def replies_def w1_def)
      from close_game_no_winner_cases [OF this] c1 show ?thesis by simp
    next
      case some
      define w2 where "w2 = emit (Log INFO (Replies_received gid (length replies))) w1"
      have c2: "collection w2 = collection w" by (simp add: w2_def c1)
      show ?thesis
      proof (cases "valid_entries_loop e [] replies")
        case (Inl x)
        with assms gid tid some have "w' = w2"
          by (simp add: process_due_game_def subscript_def Let_def replies_def w1_def w2_def)
        with c2 show ?thesis by simp
      next
        case (Inr ves)
        from valid_entries_loop_keys [OF Inr]
        have keys: "\<forall>en \<in> set ves. map fst en = [''wallet'', ''text'', ''reply_id'', ''author'']"
          by simp
        show ?thesis
        proof (cases "ves = []")
          case True
          with assms gid tid some Inr have
            "close_game_no_winner e game (reply_to_tweet e tid No_valid_wallet_found)
               (emit (Reply_to_tweet tid No_valid_wallet_found)
                  (emit (Log INFO (No_valid_wallet_addresses gid)) w2)) = (r, w')"
            by (simp add: process_due_game_def subscript_def Let_def replies_def w1_def w2_def)
          from close_game_no_winner_cases [OF this] c2 show ?thesis by simp
        next
          case False
          show ?thesis
          proof (cases "map_of game ''game_type''")
            case None
            with assms gid tid some Inr False have "w' = w2"
              by (simp add: process_due_game_def subscript_def Let_def replies_def w1_def w2_def)
            with c2 show ?thesis by simp
          next
            case gt: (Some gt)
            show ?thesis
            proof (cases "select_winner_llm e gt ves")
              case (Inl x)
              with assms gid tid some Inr False gt have "w' = w2"
                by (simp add: process_due_game_def subscript_def Let_def replies_def w1_def w2_def)
              with c2 show ?thesis by simp
            next
              case v: (Inr winner)
              define w3 where "w3 = emit (Log INFO (Winner_selected gid winner)) w2"
              have c3: "collection w3 = collection w" by (simp add: w3_def c2)
              show ?thesis
              proof (cases winner)
                case (Fallback_dict first rationale)
                with assms gid tid some Inr False gt v have "w' = w3"
                  by (simp add: process_due_game_def subscript_def Let_def replies_def
                      w1_def w2_def w3_def)
                with c3 show ?thesis by simp
              next
                case (Structured response)
                with assms gid tid some Inr False gt v have
                  "announce_verdict e gid tid ves response w3 = (r, w')"
                  by (simp add: process_due_game_def subscript_def Let_def replies_def
                      w1_def w2_def w3_def)
                from announce_verdict_cases [OF this keys] c3 gid show ?thesis by auto
              qed
            qed
          qed
        qed
      qed
    qed
  qed
qed

lemma close_game_cases:
  assumes "close_game e game w = (r, w')"
  shows "collection w' = collection w \<or>
         (\<exists>gid fs. map_of game ''game_id'' = Some gid \<and>
            collection w' = update_one gid fs (collection w) \<and> closing_fields fs)"
proof (cases "truthy_opt (map_of game ''close_at'')")
  case False
  with assms show ?thesis by (simp add: close_game_def)
next
  case True
  define w1 where "w1 = w\<lparr>ticks := Suc (ticks w)\<rparr>"
  have c1: "collection w1 = collection w" by (simp add: w1_def)
  show ?thesis
  proof (cases "\<exists>t. map_of game ''close_at'' = Some (PTime t) \<and> \<not> clock e (ticks w) < t")
    case True
    then obtain t where "map_of game ''close_at'' = Some (PTime t)" "\<not> clock e (ticks w) < t"
      by blast
    with assms have "process_due_game e game w1 = (r, w')"
      by (simp add: close_game_def datetime_now_def truthy_opt_def w1_def)
    from process_due_game_cases [OF this] c1 show ?thesis by simp
  next
    case False
    with assms \<open>truthy_opt (map_of game ''close_at'')\<close> have "w' = w1"
      by (auto simp: close_game_def datetime_now_def truthy_opt_def w1_def Let_def
          split: option.splits pyval.splits if_splits)
    with c1 show ?thesis by simp
  qed
qed

section \<open>The author identifier of a winner\<close>

lemma close_game_new_record:
  assumes "close_game e game w = (r, w')"
    and "d' \<in> set (collection w')" and "d' \<notin> set (collection w)"
  shows "\<exists>d fs. d' = set_fields fs d \<and> closing_fields fs"
proof -
  from close_game_cases [OF assms(1)] assms(2,3)
  obtain gid fs where "collection w' = update_one gid fs (collection w)" and cf: "closing_fields fs"
    by auto
  with assms(2,3) have "\<exists>d \<in> set (collection w). d' = set_fields fs d"
    by (simp add: update_one_new)
  with cf show ?thesis by blast
qed

lemma closing_fields_author_id:
  assumes "closing_fields fs"
    and "map_of (set_fields fs d) ''winner_wallet'' = Some (PStr wa)" and "wa \<noteq> []"
  shows "map_of (set_fields fs d) ''winner_author_id'' = Some (PStr '''')"
proof -
  from assms(1) have dist: "distinct (map fst fs)"
    and alt: "map_of fs ''winner_wallet'' = Some (PStr '''') \<or>
              map_of fs ''winner_author_id'' = Some (PStr '''')"
    unfolding closing_fields_def by blast+
  from alt show ?thesis
  proof
    assume "map_of fs ''winner_wallet'' = Some (PStr '''')"
    then have "map_of (set_fields fs d) ''winner_wallet'' = Some (PStr '''')"
      by (simp add: set_fields_lookup [OF dist])
    with assms(2,3) show ?thesis by simp
  next
    assume "map_of fs ''winner_author_id'' = Some (PStr '''')"
    then show ?thesis by (simp add: set_fields_lookup [OF dist])
  qed
qed

lemma close_loop_new_record:
  assumes "close_loop e games w = (r, w')"
    and "d' \<in> set (collection w')" and "d' \<notin> set (collection w)"
  shows "\<exists>d fs. d' = set_fields fs d \<and> closing_fields fs"
  using assms
proof (induction games arbitrary: w)
  case Nil
  then show ?case by simp
next
  case (Cons game games)
  obtain r1 w1 where step: "close_game e game w = (r1, w1)" by (cases "close_game e game w")
  show ?case
  proof (cases "d' \<in> set (collection w1)")
    case True
    from close_game_new_record [OF step True Cons.prems(3)] show ?thesis .
  next
    case False
    show ?thesis
    proof (cases r1)
      case None
      with Cons.prems(1) step have "close_loop e games w1 = (r, w')" by simp
      from Cons.IH [OF this Cons.prems(2) False] show ?thesis .
    next
      case (Some x)
      with Cons.prems(1) step have "w' = w1" by simp
      with Cons.prems(2) False show ?thesis by simp
    qed
  qed
qed

text \<open>
  Claim C10. Whenever a close sweep writes a record whose \<open>winner_wallet\<close> is a
  non-empty string, the \<open>winner_author_id\<close> of that record is the empty string: the
  entries carry the keys \<open>wallet\<close>, \<open>text\<close>, \<open>reply_id\<close> and \<open>author\<close> only, so the
  update reads the default of the missing key \<open>author_id\<close>.
\<close>

theorem winner_author_id_empty:
  assumes "run_close_game_agent_task e w = (r, w')"
    and "d' \<in> set (collection w')" and "d' \<notin> set (collection w)"
    and "map_of d' ''winner_wallet'' = Some (PStr wa)" and "wa \<noteq> []"
  shows "map_of d' ''winner_author_id'' = Some (PStr '''')"
proof (cases "GameStore e")
  case (Inl x)
  with assms(1) have "w' = w" by (simp add: run_close_game_agent_task_def)
  with assms(2,3) show ?thesis by simp
next
  case (Inr store)
  note store = this
  show ?thesis
  proof (cases "list_open_games e w")
    case (Inl x)
    with assms(1) store have "w' = w" by (simp add: run_close_game_agent_task_def)
    with assms(2,3) show ?thesis by simp
  next
    case (Inr open_games)
    with assms(1) store have "close_loop e open_games w = (r, w')"
      by (simp add: run_close_game_agent_task_def)
    from close_loop_new_record [OF this assms(2,3)]
    obtain d fs where "d' = set_fields fs d" and "closing_fields fs" by blast
    with assms(4,5) show ?thesis by (simp add: closing_fields_author_id)
  qed
qed

lemma example_sweep_collection:
  "collection (snd (run_close_game_agent_task example_env example_world)) =
     [[(''game_id'', PStr ''g1''), (''tweet_id'', PStr ''t1''),
       (''game_type'', PStr ''best_joke''),
       (''title'', PStr ''Game Best_joke''), (''status'', PStr ''closed''),
       (''created_at'', PTime 0), (''close_at'', PTime 100),
       (''winner_tweet_id'', PStr ''a1''),
       (''winner_wallet'', PStr ''11111111111111111111111111111111''),
       (''chain_of_thought'', PStr ''funniest''),
       (''winning_tweet_text'',
        PStr ''knock knock 11111111111111111111111111111111''),
       (''winner_username'', PStr ''ann''), (''winner_name'', PStr ''Ann''),
       (''winner_image_url'', PStr ''img''),
       (''winner_author_id'', PStr []),
       (''winner_is_verified'', PBool False), (''updated_at'', PTime 63900000000000001)]]"
  by code_simp

theorem winner_author_id_empty_witness:
  "hd (collection (snd (run_close_game_agent_task example_env example_world)))
      \<in> set (collection (snd (run_close_game_agent_task example_env example_world))) \<and>
   hd (collection (snd (run_close_game_agent_task example_env example_world)))
      \<notin> set (collection example_world) \<and>
   map_of (hd (collection (snd (run_close_game_agent_task example_env example_world))))
      ''winner_wallet'' = Some (PStr addr_A) \<and> addr_A \<noteq> [] \<and>
   map_of (hd (collection (snd (run_close_game_agent_task example_env example_world))))
      ''winner_author_id'' = Some (PStr '''')"
proof -
  let ?res = "run_close_game_agent_task example_env example_world"
  have 1: "?res = (fst ?res, snd ?res)" by simp
  have 2: "hd (collection (snd ?res)) \<in> set (collection (snd ?res))"
    unfolding example_sweep_collection by simp
  have 3: "hd (collection (snd ?res)) \<notin> set (collection example_world)"
    unfolding example_sweep_collection by (simp add: example_world_def example_game_def)
  have 4: "map_of (hd (collection (snd ?res))) ''winner_wallet'' = Some (PStr addr_A)"
    unfolding example_sweep_collection by (simp add: addr_A_def)
  have 5: "addr_A \<noteq> []" by (simp add: addr_A_def)
  from winner_author_id_empty [OF 1 2 3 4 5] 2 3 4 5 show ?thesis by simp
qed

section \<open>Closed games stay as they are\<close>

lemma closing_fields_keeps_id:
  assumes "closing_fields fs"
  shows "map_of (set_fields fs d) ''game_id'' = map_of d ''game_id''"
proof -
  from assms have dist: "distinct (map fst fs)" and "''game_id'' \<notin> set (map fst fs)"
    unfolding closing_fields_def by blast+
  then have "map_of fs ''game_id'' = None"
    by (simp add: map_of_eq_None_iff)
  then show ?thesis by (simp add: set_fields_lookup [OF dist])
qed

lemma update_one_game_ids:
  "closing_fields fs \<Longrightarrow> game_ids (update_one gid fs c) = game_ids c"
  by (induction c) (simp_all add: game_ids_def closing_fields_keeps_id)

lemma close_game_keeps:
  assumes "close_game e game w = (r, w')"
    and "i < length (collection w)"
    and "map_of game ''game_id'' \<noteq> map_of (collection w ! i) ''game_id''"
  shows "game_ids (collection w') = game_ids (collection w) \<and>
         collection w' ! i = collection w ! i"
proof -
  from close_game_cases [OF assms(1)]
  consider "collection w' = collection w"
    | gid fs where "map_of game ''game_id'' = Some gid"
        "collection w' = update_one gid fs (collection w)" "closing_fields fs"
    by blast
  then show ?thesis
  proof cases
    case 1
    then show ?thesis by simp
  next
    case 2
    with assms(3) have "map_of (collection w ! i) ''game_id'' \<noteq> Some gid" by simp
    with assms(2) have "update_one gid fs (collection w) ! i = collection w ! i"
      by (simp add: update_one_nth)
    with 2 show ?thesis by (simp add: update_one_game_ids)
  qed
qed

lemma close_loop_keeps:
  assumes "close_loop e games w = (r, w')"
    and "i < length (collection w)"
    and "\<forall>g \<in> set games. map_of g ''game_id'' \<noteq> map_of (collection w ! i) ''game_id''"
  shows "game_ids (collection w') = game_ids (collection w) \<and>
         collection w' ! i = collection w ! i"
  using assms
proof (induction games arbitrary: w)
  case Nil
  then show ?case by simp
next
  case (Cons game games)
  obtain r1 w1 where step: "close_game e game w = (r1, w1)" by (cases "close_game e game w")
  from Cons.prems(3) have ne: "map_of game ''game_id'' \<noteq> map_of (collection w ! i) ''game_id''"
    by simp
  from close_game_keeps [OF step Cons.prems(2) ne]
  have k: "game_ids (collection w1) = game_ids (collection w)"
    and n: "collection w1 ! i = collection w ! i" by simp_all
  show ?case
  proof (cases r1)
    case (Some x)
    with Cons.prems(1) step have "w' = w1" by simp
    with k n show ?thesis by simp
  next
    case None
    with Cons.prems(1) step have l: "close_loop e games w1 = (r, w')" by simp
    from k have len: "length (collection w1) = length (collection w)"
      by (metis game_ids_def length_map)
    with Cons.prems(2) have i: "i < length (collection w1)" by simp
    from Cons.prems(3) n
    have "\<forall>g \<in> set games. map_of g ''game_id'' \<noteq> map_of (collection w1 ! i) ''game_id''"
      by simp
    from Cons.IH [OF l i this] k n show ?thesis by simp
  qed
qed

lemma sweep_keeps:
  assumes "distinct (game_ids (collection w))"
    and "i < length (collection w)"
    and "map_of (collection w ! i) ''status'' = Some (PStr ''closed'')"
  shows "game_ids (collection (snd (run_close_game_agent_task e w))) = game_ids (collection w) \<and>
         collection (snd (run_close_game_agent_task e w)) ! i = collection w ! i"
proof (cases "GameStore e")
  case (Inl x)
  then show ?thesis by (simp add: run_close_game_agent_task_def)
next
  case store: (Inr store)
  show ?thesis
  proof (cases "list_open_games e w")
  case (Inl x)
  with store show ?thesis by (simp add: run_close_game_agent_task_def)
  next
  case (Inr open_games)
  have "\<forall>g \<in> set open_games.
          map_of g ''game_id'' \<noteq> map_of (collection w ! i) ''game_id''"
  proof
    fix g
    assume "g \<in> set open_games"
    with Inr have g: "g \<in> set (collection w)" and o: "map_of g ''status'' = Some (PStr ''open'')"
      by (auto simp: list_open_games_def split: option.splits)
    from g obtain j where j: "j < length (collection w)" "collection w ! j = g"
      by (auto simp: in_set_conv_nth)
    with o assms(3) have "j \<noteq> i" by auto
    have li: "i < length (game_ids (collection w))" and lj: "j < length (game_ids (collection w))"
      using assms(2) j(1) by (simp_all add: game_ids_def)
    from \<open>j \<noteq> i\<close> nth_eq_iff_index_eq [OF assms(1) lj li]
    have "game_ids (collection w) ! j \<noteq> game_ids (collection w) ! i"
      by simp
    with j assms(2) show "map_of g ''game_id'' \<noteq> map_of (collection w ! i) ''game_id''"
      by (simp add: game_ids_def)
  qed
  moreover obtain r w' where res: "close_loop e open_games w = (r, w')"
    by (cases "close_loop e open_games w")
  ultimately have "game_ids (collection w') = game_ids (collection w) \<and>
         collection w' ! i = collection w ! i"
    using close_loop_keeps [OF res assms(2)] by simp
  with Inr store res show ?thesis by (simp add: run_close_game_agent_task_def)
  qed
qed

lemma configured_duration_world:
  assumes "configured_duration e s t w = (res, w4)"
  shows "collection w4 = collection w \<and> trace w4 = trace w \<and>
         (ticks w4 = ticks w \<or> ticks w4 = Suc (ticks w))"
  using assms
  by (auto simp: configured_duration_def datetime_now_def Let_def split: sum.splits)

lemma random_duration_world:
  assumes "random_duration e t w = (res, w4)"
  shows "collection w4 = collection w \<and> trace w4 = trace w \<and> ticks w4 = Suc (ticks w)"
  using assms
  by (auto simp: random_duration_def datetime_now_def Let_def split: sum.splits)

lemma determine_game_duration_world:
  assumes "determine_game_duration e t w = (res, w4)"
  shows "collection w4 = collection w \<and> trace w4 = trace w \<and>
         (ticks w4 = ticks w \<or> ticks w4 = Suc (ticks w))"
proof (cases "\<exists>s. game_duration e = Some s \<and> py_strip s \<noteq> []")
  case True
  then obtain s where s: "game_duration e = Some s" "py_strip s \<noteq> []" by blast
  then have "s \<noteq> []" by (auto simp: py_strip_def py_lstrip_def py_rstrip_def)
  with s assms have "configured_duration e s t w = (res, w4)"
    by (simp add: determine_game_duration_def)
  from configured_duration_world [OF this] show ?thesis .
next
  case False
  with assms have "random_duration e t w = (res, w4)"
    by (auto simp: determine_game_duration_def split: option.splits if_splits)
  from random_duration_world [OF this] show ?thesis by simp
qed

lemma create_game_cases:
  assumes "create_game e gid tid gt c w = (r, w')"
  shows "(r \<noteq> None \<and> collection w' = collection w \<and> trace w' = trace w) \<or>
         (r = None \<and>
          collection w' =
            collection w @
              [[(''game_id'', PStr gid), (''tweet_id'', tid), (''game_type'', PStr gt),
                (''title'', PStr (''Game '' @ capitalize gt)), (''status'', PStr ''open''),
                (''created_at'', PTime (clock e (ticks w))), (''close_at'', PTime c),
                (''winner_tweet_id'', PNone), (''winner_wallet'', PNone)]])"
proof (cases "insert_one_error e
                [(''game_id'', PStr gid), (''tweet_id'', tid), (''game_type'', PStr gt),
                 (''title'', PStr (''Game '' @ capitalize gt)), (''status'', PStr ''open''),
                 (''created_at'', PTime (clock e (ticks w))), (''close_at'', PTime c),
                 (''winner_tweet_id'', PNone), (''winner_wallet'', PNone)]")
  case None
  with assms show ?thesis
    by (auto simp: create_game_def datetime_now_def Let_def emit_def)
next
  case (Some x)
  with assms have "r = Some x" "w' = w\<lparr>ticks := Suc (ticks w)\<rparr>"
    by (simp_all add: create_game_def datetime_now_def Let_def)
  then show ?thesis by simp
qed

lemma run_create_cases:
  "collection (snd (run_create_game_agent_task e w)) = collection w \<or>
   (\<exists>doc. collection (snd (run_create_game_agent_task e w)) = collection w @ [doc] \<and>
          map_of doc ''game_id'' = Some (PStr (uuid4 e)) \<and>
          map_of doc ''status'' = Some (PStr ''open''))"
proof -
  obtain game_type tweet_text where cg: "choose_game e = (game_type, tweet_text)"
    by (cases "choose_game e")
  define w3 where "w3 = emit (Post_tweet tweet_text)
     (emit (Log INFO (Creating_new_game game_type (clock e (ticks w)))) (w\<lparr>ticks := Suc (ticks w)\<rparr>))"
  have c3: "collection w3 = collection w" by (simp add: w3_def)
  define post where "post = post_tweet e tweet_text"
  show ?thesis
  proof (cases "has_key ''error'' post \<or> \<not> truthy (get_default post ''id'' PNone)")
    case True
    then have "collection (snd (run_create_game_agent_task e w)) = collection w"
      by (auto simp: run_create_game_agent_task_def cg datetime_now_def Let_def post_def)
    then show ?thesis by simp
  next
    case False
    obtain res w4 where d: "determine_game_duration e tweet_text w3 = (res, w4)"
      by (rule prod.exhaust)
    from determine_game_duration_world [OF d] c3 have c4: "collection w4 = collection w"
      by simp
    show ?thesis
    proof (cases res)
      case (Inl x)
      with False d have "snd (run_create_game_agent_task e w) = w4"
        by (auto simp: run_create_game_agent_task_def cg datetime_now_def Let_def post_def w3_def)
      with c4 show ?thesis by simp
    next
      case (Inr tc)
      obtain t' c where tc: "tc = (t', c)" by (cases tc)
      define w5 where
        "w5 = emit (Log INFO (New_game_tweet_posted game_type (get_default post ''id'' PNone) c)) w4"
      have c5: "collection w5 = collection w" by (simp add: w5_def c4)
      show ?thesis
      proof (cases "GameStore e")
        case (Inl x)
        with False d Inr tc have "snd (run_create_game_agent_task e w) = w5"
          by (auto simp: run_create_game_agent_task_def cg datetime_now_def Let_def post_def
              w3_def w5_def)
        with c5 show ?thesis by simp
      next
        case store: (Inr store)
        with False d Inr tc have
          "run_create_game_agent_task e w =
             create_game e (uuid4 e) (get_default post ''id'' PNone) game_type c w5"
          by (auto simp: run_create_game_agent_task_def cg datetime_now_def Let_def post_def
              w3_def w5_def)
        then have "create_game e (uuid4 e) (get_default post ''id'' PNone) game_type c w5 =
             (fst (run_create_game_agent_task e w), snd (run_create_game_agent_task e w))"
          by simp
        from create_game_cases [OF this] c5 show ?thesis by auto
      qed
    qed
  qed
qed

lemma run_job_keeps:
  assumes "distinct (game_ids (collection w))"
    and "j = Create_game_job \<longrightarrow> Some (PStr (uuid4 e)) \<notin> set (game_ids (collection w))"
    and "i < length (collection w)"
    and "map_of (collection w ! i) ''status'' = Some (PStr ''closed'')"
  shows "distinct (game_ids (collection (run_job j e w))) \<and>
         i < length (collection (run_job j e w)) \<and>
         collection (run_job j e w) ! i = collection w ! i"
proof (cases j)
  case Close_game_job
  from sweep_keeps [OF assms(1,3,4), of e]
  have k: "game_ids (collection (snd (run_close_game_agent_task e w))) = game_ids (collection w)"
    and n: "collection (snd (run_close_game_agent_task e w)) ! i = collection w ! i"
    by simp_all
  from k have "length (collection (snd (run_close_game_agent_task e w))) = length (collection w)"
    by (metis game_ids_def length_map)
  with k n assms(1,3) Close_game_job show ?thesis by (simp add: run_job_def)
next
  case Create_game_job
  with assms(2) have fresh: "Some (PStr (uuid4 e)) \<notin> set (game_ids (collection w))" by simp
  from run_create_cases [of e w] show ?thesis
  proof
    assume "collection (snd (run_create_game_agent_task e w)) = collection w"
    with assms(1,3) Create_game_job show ?thesis by (simp add: run_job_def)
  next
    assume "\<exists>doc. collection (snd (run_create_game_agent_task e w)) = collection w @ [doc] \<and>
          map_of doc ''game_id'' = Some (PStr (uuid4 e)) \<and>
          map_of doc ''status'' = Some (PStr ''open'')"
    then obtain doc where c: "collection (snd (run_create_game_agent_task e w)) = collection w @ [doc]"
      and d: "map_of doc ''game_id'' = Some (PStr (uuid4 e))" by blast
    from c d fresh assms(1) have "distinct (game_ids (collection (snd (run_create_game_agent_task e w))))"
      by (simp add: game_ids_def)
    with c assms(3) Create_game_job show ?thesis by (simp add: run_job_def nth_append)
  qed
qed

lemma run_jobs_keeps:
  assumes "distinct (game_ids (collection w))"
    and "fresh_identifiers jobs w"
    and "i < length (collection w)"
    and "map_of (collection w ! i) ''status'' = Some (PStr ''closed'')"
  shows "i < length (collection (run_jobs jobs w)) \<and>
         collection (run_jobs jobs w) ! i = collection w ! i"
  using assms
proof (induction jobs arbitrary: w)
  case Nil
  then show ?case by simp
next
  case (Cons je jobs)
  obtain j e where je: "je = (j, e)" by (cases je)
  from Cons.prems(2) je
  have f1: "j = Create_game_job \<longrightarrow> Some (PStr (uuid4 e)) \<notin> set (game_ids (collection w))"
    and f2: "fresh_identifiers jobs (run_job j e w)" by simp_all
  from run_job_keeps [OF Cons.prems(1) f1 Cons.prems(3,4)]
  have d: "distinct (game_ids (collection (run_job j e w)))"
    and l: "i < length (collection (run_job j e w))"
    and n: "collection (run_job j e w) ! i = collection w ! i" by simp_all
  from n Cons.prems(4)
  have s: "map_of (collection (run_job j e w) ! i) ''status'' = Some (PStr ''closed'')" by simp
  from Cons.IH [OF d f2 l s] n je show ?case by simp
qed

text \<open>
  Claim C4. In a collection whose games have pairwise different identifiers, a close
  sweep leaves every record whose status is \<open>closed\<close> exactly as it is: the sweep takes
  the games with status \<open>open\<close> only, and every update it sends goes to the record of
  such a game. The same holds along any run of the two jobs in which each new game gets
  an identifier that is not in use: the record stays in its place, with its status and
  its winner fields.
\<close>

theorem closed_games_stay_closed:
  assumes "distinct (game_ids (collection w))"
    and "i < length (collection w)"
    and "map_of (collection w ! i) ''status'' = Some (PStr ''closed'')"
  shows "collection (snd (run_close_game_agent_task e w)) ! i = collection w ! i \<and>
         (fresh_identifiers jobs w \<longrightarrow>
            i < length (collection (run_jobs jobs w)) \<and>
            collection (run_jobs jobs w) ! i = collection w ! i)"
proof
  from sweep_keeps [OF assms] show
    "collection (snd (run_close_game_agent_task e w)) ! i = collection w ! i"
    by simp
next
  show "fresh_identifiers jobs w \<longrightarrow>
            i < length (collection (run_jobs jobs w)) \<and>
            collection (run_jobs jobs w) ! i = collection w ! i"
  proof
    assume "fresh_identifiers jobs w"
    from run_jobs_keeps [OF assms(1) this assms(2,3)]
    show "i < length (collection (run_jobs jobs w)) \<and>
          collection (run_jobs jobs w) ! i = collection w ! i" .
  qed
qed

lemma two_games_distinct: "distinct (game_ids (collection two_games_world))"
  by code_simp

lemma two_games_closed:
  "map_of (collection two_games_world ! 0) ''status'' = Some (PStr ''closed'')"
  by code_simp

lemma two_games_fresh: "fresh_identifiers example_jobs two_games_world"
  by code_simp

theorem closed_games_stay_closed_witness:
  "distinct (game_ids (collection two_games_world)) \<and>
   0 < length (collection two_games_world) \<and>
   map_of (collection two_games_world ! 0) ''status'' = Some (PStr ''closed'') \<and>
   fresh_identifiers example_jobs two_games_world \<and>
   collection (snd (run_close_game_agent_task example_env two_games_world)) ! 0 = closed_game \<and>
   collection (run_jobs example_jobs two_games_world) ! 0 = closed_game"
proof -
  have l: "0 < length (collection two_games_world)"
    by (simp add: two_games_world_def)
  have c: "collection two_games_world ! 0 = closed_game"
    by (simp add: two_games_world_def)
  from closed_games_stay_closed [OF two_games_distinct l two_games_closed,
      of example_env example_jobs] two_games_fresh c
  have "collection (snd (run_close_game_agent_task example_env two_games_world)) ! 0 = closed_game"
    and "collection (run_jobs example_jobs two_games_world) ! 0 = closed_game"
    by simp_all
  with two_games_distinct l two_games_closed two_games_fresh show ?thesis by simp
qed

section \<open>A failed fetch\<close>

lemma process_due_game_fetch_error:
  assumes "map_of game ''game_id'' = Some gid" and "map_of game ''tweet_id'' = Some tid"
    and "find_answers_with_conversation_id e tid = reply # others"
    and "map_of reply ''error'' = Some (PStr msg)" and "msg \<noteq> []"
  shows "process_due_game e game w =
           (None, emit (Log ERROR (if contains ''429'' msg then Rate_limit_reached gid (PStr msg)
                                   else Error_fetching_replies gid (PStr msg)))
                    (emit (Log INFO (Processing_game_closure gid)) w))"
  using assms
  by (simp add: process_due_game_def subscript_def Let_def truthy_opt_def get_default_def)

lemma close_game_fetch_error_collection:
  assumes "map_of game ''tweet_id'' = Some tid"
    and "find_answers_with_conversation_id e tid = reply # others"
    and "map_of reply ''error'' = Some (PStr msg)" and "msg \<noteq> []"
  shows "collection (snd (close_game e game w)) = collection w"
proof (cases "\<exists>t. map_of game ''close_at'' = Some (PTime t) \<and> \<not> clock e (ticks w) < t")
  case True
  then obtain t where t: "map_of game ''close_at'' = Some (PTime t)" "\<not> clock e (ticks w) < t"
    by blast
  then have cg: "close_game e game w = process_due_game e game (w\<lparr>ticks := Suc (ticks w)\<rparr>)"
    by (simp add: close_game_def datetime_now_def truthy_opt_def)
  show ?thesis
  proof (cases "map_of game ''game_id''")
    case None
    then show ?thesis by (simp add: cg process_due_game_def subscript_def)
  next
    case (Some gid)
    from process_due_game_fetch_error [OF Some assms] show ?thesis
      by (simp add: cg)
  qed
next
  case False
  then show ?thesis
    by (auto simp: close_game_def datetime_now_def truthy_opt_def Let_def
        split: option.splits pyval.splits)
qed

lemma close_loop_keeps_or_skips:
  assumes "close_loop e games w = (r, w')"
    and "i < length (collection w)"
    and "\<forall>g \<in> set games.
           map_of g ''game_id'' \<noteq> map_of (collection w ! i) ''game_id'' \<or>
           (\<forall>v. collection (snd (close_game e g v)) = collection v)"
  shows "game_ids (collection w') = game_ids (collection w) \<and>
         collection w' ! i = collection w ! i"
  using assms
proof (induction games arbitrary: w)
  case Nil
  then show ?case by simp
next
  case (Cons game games)
  obtain r1 w1 where step: "close_game e game w = (r1, w1)" by (cases "close_game e game w")
  have "game_ids (collection w1) = game_ids (collection w) \<and> collection w1 ! i = collection w ! i"
  proof (cases "map_of game ''game_id'' \<noteq> map_of (collection w ! i) ''game_id''")
    case True
    from close_game_keeps [OF step Cons.prems(2) True] show ?thesis .
  next
    case False
    with Cons.prems(3) have "collection (snd (close_game e game w)) = collection w" by simp
    with step show ?thesis by simp
  qed
  then have k: "game_ids (collection w1) = game_ids (collection w)"
    and n: "collection w1 ! i = collection w ! i" by simp_all
  show ?case
  proof (cases r1)
    case (Some x)
    with Cons.prems(1) step have "w' = w1" by simp
    with k n show ?thesis by simp
  next
    case None
    with Cons.prems(1) step have l: "close_loop e games w1 = (r, w')" by simp
    from k have "length (collection w1) = length (collection w)"
      by (metis game_ids_def length_map)
    with Cons.prems(2) have i: "i < length (collection w1)" by simp
    from Cons.prems(3) n
    have "\<forall>g \<in> set games.
           map_of g ''game_id'' \<noteq> map_of (collection w1 ! i) ''game_id'' \<or>
           (\<forall>v. collection (snd (close_game e g v)) = collection v)"
      by simp
    from Cons.IH [OF l i this] k n show ?thesis by simp
  qed
qed

lemma sweep_skips_fetch_error:
  assumes "distinct (game_ids (collection w))"
    and "i < length (collection w)"
    and "map_of (collection w ! i) ''tweet_id'' = Some tid"
    and "find_answers_with_conversation_id e tid = reply # others"
    and "map_of reply ''error'' = Some (PStr msg)" and "msg \<noteq> []"
  shows "collection (snd (run_close_game_agent_task e w)) ! i = collection w ! i"
proof (cases "GameStore e")
  case (Inl x)
  then show ?thesis by (simp add: run_close_game_agent_task_def)
next
  case store: (Inr store)
  show ?thesis
  proof (cases "list_open_games e w")
  case (Inl x)
  with store show ?thesis by (simp add: run_close_game_agent_task_def)
  next
  case (Inr open_games)
  have "\<forall>g \<in> set open_games.
           map_of g ''game_id'' \<noteq> map_of (collection w ! i) ''game_id'' \<or>
           (\<forall>v. collection (snd (close_game e g v)) = collection v)"
  proof
    fix g
    assume "g \<in> set open_games"
    with Inr have "g \<in> set (collection w)"
      by (auto simp: list_open_games_def split: option.splits)
    then obtain j where j: "j < length (collection w)" "collection w ! j = g"
      by (auto simp: in_set_conv_nth)
    show "map_of g ''game_id'' \<noteq> map_of (collection w ! i) ''game_id'' \<or>
           (\<forall>v. collection (snd (close_game e g v)) = collection v)"
    proof (cases "j = i")
      case True
      with j assms(3) have "map_of g ''tweet_id'' = Some tid" by simp
      from close_game_fetch_error_collection [OF this assms(4,5,6)] show ?thesis by simp
    next
      case False
      have li: "i < length (game_ids (collection w))" and lj: "j < length (game_ids (collection w))"
        using assms(2) j(1) by (simp_all add: game_ids_def)
      from False nth_eq_iff_index_eq [OF assms(1) lj li]
      have "game_ids (collection w) ! j \<noteq> game_ids (collection w) ! i" by simp
      with j assms(2) show ?thesis by (simp add: game_ids_def)
    qed
  qed
  moreover obtain r w' where res: "close_loop e open_games w = (r, w')"
    by (cases "close_loop e open_games w")
  ultimately have "collection w' ! i = collection w ! i"
    using close_loop_keeps_or_skips [OF res assms(2)] by simp
  with Inr store res show ?thesis by (simp add: run_close_game_agent_task_def)
  qed
qed

text \<open>
  Claim C3. Let the fetch of the replies to a game's tweet answer with an error, that is
  with a list whose first element carries a non-empty message under \<open>error\<close>. When the
  game is due, the loop body does nothing but read the clock and write two log lines:
  no reply is posted, the store is not written, no exception is raised; a message that
  contains \<open>429\<close> changes the second log line and nothing else. In a sweep over a
  collection with pairwise different identifiers the record of that game is left as it
  is.
\<close>

theorem fetch_error_skips_game:
  assumes "map_of game ''tweet_id'' = Some tid"
    and "find_answers_with_conversation_id e tid = reply # others"
    and "map_of reply ''error'' = Some (PStr msg)" and "msg \<noteq> []"
  shows "(map_of game ''close_at'' = Some (PTime t) \<and> \<not> clock e (ticks w) < t \<and>
          map_of game ''game_id'' = Some gid \<longrightarrow>
            close_game e game w =
              (None, w\<lparr>ticks := Suc (ticks w),
                       trace := trace w @
                         [Log INFO (Processing_game_closure gid),
                          Log ERROR (if contains ''429'' msg
                                     then Rate_limit_reached gid (PStr msg)
                                     else Error_fetching_replies gid (PStr msg))]\<rparr>)) \<and>
         (distinct (game_ids (collection w)) \<and> i < length (collection w) \<and>
          collection w ! i = game \<longrightarrow>
            collection (snd (run_close_game_agent_task e w)) ! i = game)"
proof (intro conjI impI)
  assume a: "map_of game ''close_at'' = Some (PTime t) \<and> \<not> clock e (ticks w) < t \<and>
          map_of game ''game_id'' = Some gid"
  then have "close_game e game w = process_due_game e game (w\<lparr>ticks := Suc (ticks w)\<rparr>)"
    by (simp add: close_game_def datetime_now_def truthy_opt_def)
  also from a have "\<dots> = (None, emit (Log ERROR (if contains ''429'' msg
                                     then Rate_limit_reached gid (PStr msg)
                                     else Error_fetching_replies gid (PStr msg)))
                    (emit (Log INFO (Processing_game_closure gid)) (w\<lparr>ticks := Suc (ticks w)\<rparr>)))"
    by (simp add: process_due_game_fetch_error [OF _ assms])
  finally show "close_game e game w =
              (None, w\<lparr>ticks := Suc (ticks w),
                       trace := trace w @
                         [Log INFO (Processing_game_closure gid),
                          Log ERROR (if contains ''429'' msg
                                     then Rate_limit_reached gid (PStr msg)
                                     else Error_fetching_replies gid (PStr msg))]\<rparr>)"
    by (simp add: emit_def)
next
  assume b: "distinct (game_ids (collection w)) \<and> i < length (collection w) \<and>
          collection w ! i = game"
  with assms(1) have "map_of (collection w ! i) ''tweet_id'' = Some tid" by simp
  from sweep_skips_fetch_error [OF _ _ this assms(2,3,4)] b
  show "collection (snd (run_close_game_agent_task e w)) ! i = game" by simp
qed

lemma contains_429_example: "contains ''429'' ''Twitter API error: 429 Too Many Requests''"
  by code_simp

lemma contains_429_other: "\<not> contains ''429'' ''Failed to fetch replies: timeout''"
  by code_simp

theorem fetch_error_skips_game_witness:
  "close_game rate_limited_env example_game example_world =
     (None, example_world\<lparr>ticks := Suc (ticks example_world),
              trace := trace example_world @
                [Log INFO (Processing_game_closure (PStr ''g1'')),
                 Log ERROR (Rate_limit_reached (PStr ''g1'')
                    (PStr ''Twitter API error: 429 Too Many Requests''))]\<rparr>) \<and>
   close_game fetch_failing_env example_game example_world =
     (None, example_world\<lparr>ticks := Suc (ticks example_world),
              trace := trace example_world @
                [Log INFO (Processing_game_closure (PStr ''g1'')),
                 Log ERROR (Error_fetching_replies (PStr ''g1'')
                    (PStr ''Failed to fetch replies: timeout''))]\<rparr>) \<and>
   collection (snd (run_close_game_agent_task rate_limited_env example_world)) ! 0 = example_game"
proof -
  have g: "map_of example_game ''tweet_id'' = Some (PStr ''t1'')"
    "map_of example_game ''game_id'' = Some (PStr ''g1'')"
    "map_of example_game ''close_at'' = Some (PTime 100)"
    by (simp_all add: example_game_def)
  have f1: "find_answers_with_conversation_id rate_limited_env (PStr ''t1'') =
      [(''error'', PStr ''Twitter API error: 429 Too Many Requests'')] # []"
    by (simp add: rate_limited_env_def)
  have f2: "find_answers_with_conversation_id fetch_failing_env (PStr ''t1'') =
      [(''error'', PStr ''Failed to fetch replies: timeout'')] # []"
    by (simp add: fetch_failing_env_def)
  have m1: "map_of [(''error'', PStr ''Twitter API error: 429 Too Many Requests'')] ''error'' =
      Some (PStr ''Twitter API error: 429 Too Many Requests'')" by simp
  have m2: "map_of [(''error'', PStr ''Failed to fetch replies: timeout'')] ''error'' =
      Some (PStr ''Failed to fetch replies: timeout'')" by simp
  have d1: "\<not> clock rate_limited_env (ticks example_world) < 100"
    by (simp add: rate_limited_env_def example_env_def example_world_def)
  have d2: "\<not> clock fetch_failing_env (ticks example_world) < 100"
    by (simp add: fetch_failing_env_def example_env_def example_world_def)
  have w: "distinct (game_ids (collection example_world))" "0 < length (collection example_world)"
    "collection example_world ! 0 = example_game"
    by (simp_all add: example_world_def game_ids_def)
  from fetch_error_skips_game [OF g(1) f1 m1, of 100 example_world "PStr ''g1''" 0]
    g d1 w contains_429_example
  have a: "close_game rate_limited_env example_game example_world =
     (None, example_world\<lparr>ticks := Suc (ticks example_world),
              trace := trace example_world @
                [Log INFO (Processing_game_closure (PStr ''g1'')),
                 Log ERROR (Rate_limit_reached (PStr ''g1'')
                    (PStr ''Twitter API error: 429 Too Many Requests''))]\<rparr>)"
    and c: "collection (snd (run_close_game_agent_task rate_limited_env example_world)) ! 0
              = example_game"
    by simp_all
  from fetch_error_skips_game [OF g(1) f2 m2, of 100 example_world "PStr ''g1''" 0]
    g d2 contains_429_other
  have b: "close_game fetch_failing_env example_game example_world =
     (None, example_world\<lparr>ticks := Suc (ticks example_world),
              trace := trace example_world @
                [Log INFO (Processing_game_closure (PStr ''g1'')),
                 Log ERROR (Error_fetching_replies (PStr ''g1'')
                    (PStr ''Failed to fetch replies: timeout''))]\<rparr>)"
    by simp
  from a b c show ?thesis by simp
qed

section \<open>The last step of a closure\<close>





















section \<open>A verdict without a wallet\<close>











section \<open>A judge whose output cannot be parsed\<close>

lemma select_winner_llm_no_fallback:
  "select_winner_llm e game_type entries \<noteq> Inr (Fallback_dict first rationale)"
  by (simp add: select_winner_llm_def try_except_def split: sum.splits)

lemma select_winner_llm_raises:
  assumes "ainvoke e \<lparr>entries_json = entries, for_game_type = game_type,
                       instructions = instructions_for game_type\<rparr> = Inl x"
  shows "\<exists>y. select_winner_llm e game_type entries = Inl y"
  using assms by (simp add: select_winner_llm_def split: sum.splits)

text \<open>
  Claim C2 describes the fallback that the \<open>except\<close> branch of \<open>select_winner_llm\<close>
  spells out. The code does not reach it: the call of the judge stands before the
  \<open>try\<close>, so a parse failure leaves the function as an exception, and the caller's loop
  ends with it. On the example game, with a judge whose output cannot be parsed:
\<close>

theorem select_winner_llm_parse_failure:
  "select_winner_llm judge_failing_env (PStr ''best_joke'') [example_entry] =
     Inl (OutputParserException ''Failed to parse WinnerResponse'') \<and>
   close_game judge_failing_env example_game example_world =
     (Some (OutputParserException ''Failed to parse WinnerResponse''),
      \<lparr>collection = [example_game],
       trace = [Log INFO (Processing_game_closure (PStr ''g1'')),
                Log INFO (Replies_received (PStr ''g1'') 1)],
       ticks = 1\<rparr>)"
  by code_simp

section \<open>A reply with two addresses\<close>

text \<open>
  A reply whose text is a string adds an entry exactly when its text holds a valid
  address, and the wallet of the entry is one of the valid addresses of the text.
\<close>

lemma reply_contributes:
  assumes "get_default reply ''text'' (PStr '''') = PStr content"
  shows "valid_entries_loop e acc [reply] =
           Inr (if extract_solana_addresses content \<noteq> [] then
                  acc @ [[(''wallet'', PStr (next_iter (slot e) (extract_solana_addresses content))),
                          (''text'', PStr content),
                          (''reply_id'', get_default reply ''id'' PNone),
                          (''author'', get_default reply ''author'' (PDict []))]]
                else acc)"
  using assms by (simp add: Let_def)

lemma next_iter_member: "s \<noteq> [] \<Longrightarrow> next_iter sl s \<in> set s"
  by (simp add: next_iter_def arg_min_list_in)

text \<open>
  Claim C6 says that the first valid address of a reply becomes the wallet of its
  entry, as the comment at \<open>next(iter(addresses))\<close> does. The addresses are in a \<open>set\<close>,
  though, and its iteration starts at the lowest slot: here the reply names \<open>addr_A\<close>
  first, and the entry gets \<open>addr_B\<close>.
\<close>

theorem wallet_not_first_address:
  "re_findall (addr_A @ '' or '' @ addr_B) = [addr_A, addr_B] \<and>
   extract_solana_addresses (addr_A @ '' or '' @ addr_B) = [addr_A, addr_B] \<and>
   valid_entries_loop two_address_env [] [two_address_reply] =
     Inr [[(''wallet'', PStr addr_B), (''text'', PStr (addr_A @ '' or '' @ addr_B)),
           (''reply_id'', PStr ''r2''), (''author'', PDict [])]] \<and>
   addr_A \<noteq> addr_B"
  by code_simp

end
